theory Spec2Isabelle
  imports Main "HOL-Library.Char_ord" "HOL-Library.List_Lexorder"
begin

section \<open>Results assembler (query\_results.js)\<close>

text \<open>
  Strings are byte strings ordered by character code, shorter prefixes first; this is the
  order of JavaScript's default \<open>Array.prototype.sort\<close> on strings of ASCII characters.

  A plain JavaScript object is an association list in property enumeration order
  (insertion order for keys that are not array indices and not names on
  \<open>Object.prototype\<close>). A JavaScript \<open>Set\<close> is a duplicate-free list in
  insertion order, which is the order \<open>Array.from\<close> returns.

  The helper module is not part of the sources. Its getters
  (\<open>_getInputQueryNodeID\<close>, \<open>_getOutputQueryNodeID\<close>, \<open>_getInputCurie\<close>,
  \<open>_getOutputCurie\<close>, \<open>_getInputIsSet\<close>, \<open>_getOutputIsSet\<close>,
  \<open>_getRecordHash\<close>) are the fields of the record type below; applied to
  \<open>undefined\<close> (the first element of an empty array) they dereference it and
  raise a \<open>TypeError\<close>.
\<close>

datatype js_error = TypeError | RangeError

record Record =
  getInputQueryNodeID :: string
  getOutputQueryNodeID :: string
  getInputCurie :: string
  getOutputCurie :: string
  getInputIsSet :: bool
  getOutputIsSet :: bool
  getRecordHash :: string

record EdgeData =
  connected_to :: "string list"
  records :: "Record list"

type_synonym DataByEdge = "(string \<times> EdgeData) list"

record ucRecord =
  inputQNodeID :: string
  outputQNodeID :: string
  inputPrimaryCurie :: string
  outputPrimaryCurie :: string
  qEdgeID :: string
  recordHash :: string

type_synonym ucResult = "ucRecord list"

text \<open>\<open>Set.prototype.add\<close> and \<open>new Set(iterable)\<close>.\<close>

definition Set_add :: "'a list \<Rightarrow> 'a \<Rightarrow> 'a list" where
  "Set_add s x = (if x \<in> set s then s else s @ [x])"

definition Set_from :: "'a list \<Rightarrow> 'a list" where
  "Set_from xs = foldl Set_add [] xs"

text \<open>\<open>Array.prototype.join\<close> on an array of strings.\<close>

fun join :: "string \<Rightarrow> string list \<Rightarrow> string" where
  "join sep [] = []"
| "join sep [x] = x"
| "join sep (x # y # ys) = x @ sep @ join sep (y # ys)"

text \<open>Property read \<open>obj[k]\<close> and property write \<open>obj[k] = v\<close> on a plain object.\<close>

definition obj_get :: "(string \<times> 'v) list \<Rightarrow> string \<Rightarrow> 'v option" where
  "obj_get obj k = map_of obj k"

fun obj_set :: "(string \<times> 'v) list \<Rightarrow> string \<Rightarrow> 'v \<Rightarrow> (string \<times> 'v) list" where
  "obj_set [] k v = [(k, v)]"
| "obj_set ((k', v') # rest) k v =
     (if k' = k then (k, v) # rest else (k', v') # obj_set rest k v)"

subsection \<open>\_getUnconsolidatedResults\<close>

text \<open>
  The arrays that hold preresults are shared and mutated by \<open>push\<close> across the
  recursion, so they live in a store: \<open>heap\<close> maps an address to the array's current
  content, \<open>nextAddr\<close> is the next free address, and \<open>ucResults\<close> is the array of
  references collected so far.
\<close>

record ucState =
  heap :: "nat \<Rightarrow> ucResult"
  nextAddr :: nat
  ucResults :: "nat list"

definition alloc :: "ucResult \<Rightarrow> ucState \<Rightarrow> nat \<times> ucState" where
  "alloc content st =
     (nextAddr st, st\<lparr>heap := (heap st)(nextAddr st := content), nextAddr := Suc (nextAddr st)\<rparr>)"

definition push :: "nat \<Rightarrow> ucRecord \<Rightarrow> ucState \<Rightarrow> ucState" where
  "push a x st = st\<lparr>heap := (heap st)(a := heap st a @ [x])\<rparr>"

type_synonym getUC_call =
  "string \<Rightarrow> nat \<Rightarrow> string option \<Rightarrow> string option \<Rightarrow> ucState \<Rightarrow> js_error + ucState"

text \<open>\<open>connected_to.forEach\<close>: one recursive call per connected edge, in order.\<close>

fun forEach_connected ::
  "getUC_call \<Rightarrow> nat \<Rightarrow> string \<Rightarrow> string \<Rightarrow> string list \<Rightarrow> ucState \<Rightarrow> js_error + ucState" where
  "forEach_connected call ucResult otherQNodeID otherPrimaryCurie [] st = Inr st"
| "forEach_connected call ucResult otherQNodeID otherPrimaryCurie (c # cs) st =
     (case call c ucResult (Some otherQNodeID) (Some otherPrimaryCurie) st of
        Inl e \<Rightarrow> Inl e
      | Inr st' \<Rightarrow> forEach_connected call ucResult otherQNodeID otherPrimaryCurie cs st')"

text \<open>
  The \<open>forEach\<close> over the filtered records. \<open>first\<close> is \<open>i === 0\<close>; the variable
  \<open>ucResult\<close> is reassigned to a fresh copy of \<open>ucResultClone\<close> for every later
  record and keeps that value for the calls below it.
\<close>

fun forEach_record ::
  "getUC_call \<Rightarrow> nat \<Rightarrow> string \<Rightarrow> string list \<Rightarrow> string \<Rightarrow> (Record \<Rightarrow> string) \<Rightarrow>
   ucResult \<Rightarrow> bool \<Rightarrow> nat \<Rightarrow> Record list \<Rightarrow> ucState \<Rightarrow> js_error + ucState" where
  "forEach_record call edgeCount qEdge conn otherQNodeID getOtherPrimaryCurie
     ucResultClone first ucResult [] st = Inr st"
| "forEach_record call edgeCount qEdge conn otherQNodeID getOtherPrimaryCurie
     ucResultClone first ucResult (r # rs) st =
     (let (a, st1) = (if first then (ucResult, st) else alloc ucResultClone st);
          st2 = push a \<lparr>inputQNodeID = getInputQueryNodeID r,
                        outputQNodeID = getOutputQueryNodeID r,
                        inputPrimaryCurie = getInputCurie r,
                        outputPrimaryCurie = getOutputCurie r,
                        qEdgeID = qEdge,
                        recordHash = getRecordHash r\<rparr> st1;
          st3 = (if length (heap st2 a) = edgeCount
                 then st2\<lparr>ucResults := ucResults st2 @ [a]\<rparr> else st2)
      in case forEach_connected call a otherQNodeID (getOtherPrimaryCurie r) conn st3 of
           Inl e \<Rightarrow> Inl e
         | Inr st4 \<Rightarrow>
             forEach_record call edgeCount qEdge conn otherQNodeID getOtherPrimaryCurie
               ucResultClone False a rs st4)"

definition matching :: "(Record \<Rightarrow> string) \<Rightarrow> string option \<Rightarrow> Record \<Rightarrow> bool" where
  "matching getMatchingPrimaryCurie primaryCurieToMatch r \<longleftrightarrow>
     primaryCurieToMatch = Some (getMatchingPrimaryCurie r) \<or> primaryCurieToMatch = None"

definition getUC_body :: "getUC_call \<Rightarrow> DataByEdge \<Rightarrow> nat \<Rightarrow> getUC_call" where
  "getUC_body call recordsByQEdgeID edgeCount qEdge ucResult qNodeIDToMatch primaryCurieToMatch st =
     (case obj_get recordsByQEdgeID qEdge of
        None \<Rightarrow> Inl TypeError
      | Some ed \<Rightarrow>
         (case records ed of
            [] \<Rightarrow> Inl TypeError
          | record # _ \<Rightarrow>
             (let inQ = getInputQueryNodeID record; outQ = getOutputQueryNodeID record in
              if qNodeIDToMatch = Some inQ \<or> qNodeIDToMatch = None then
                forEach_record call edgeCount qEdge (connected_to ed) outQ getOutputCurie
                  (heap st ucResult) True ucResult
                  (filter (matching getInputCurie primaryCurieToMatch) (records ed)) st
              else if qNodeIDToMatch = Some outQ then
                forEach_record call edgeCount qEdge (connected_to ed) inQ getInputCurie
                  (heap st ucResult) True ucResult
                  (filter (matching getOutputCurie primaryCurieToMatch) (records ed)) st
              else Inr st)))"

text \<open>
  The recursion is bounded by the depth of the call stack: \<open>getUnconsolidatedResults d\<close>
  may nest \<open>d\<close> calls, and a deeper recursion (a query graph with a cycle) ends in the
  engine's \<open>RangeError\<close>.
\<close>

primrec getUnconsolidatedResults :: "nat \<Rightarrow> DataByEdge \<Rightarrow> nat \<Rightarrow> getUC_call" where
  "getUnconsolidatedResults 0 recordsByQEdgeID edgeCount = (\<lambda>_ _ _ _ _. Inl RangeError)"
| "getUnconsolidatedResults (Suc d) recordsByQEdgeID edgeCount =
     getUC_body (getUnconsolidatedResults d recordsByQEdgeID edgeCount) recordsByQEdgeID edgeCount"

subsection \<open>\_getUniqueNodeID and the consolidated result identifier\<close>

definition getUniqueNodeID :: "string list \<Rightarrow> string \<Rightarrow> string \<Rightarrow> string" where
  "getUniqueNodeID qNodeIDsWithIsSet qNodeID primaryCurie =
     (if qNodeID \<in> set qNodeIDsWithIsSet then qNodeID else qNodeID @ ''-'' @ primaryCurie)"

definition uniqueNodeIDs :: "string list \<Rightarrow> ucResult \<Rightarrow> string list" where
  "uniqueNodeIDs qNodeIDsWithIsSet ucResult =
     foldl (\<lambda>s r.
        Set_add
          (Set_add s (getUniqueNodeID qNodeIDsWithIsSet (inputQNodeID r) (inputPrimaryCurie r)))
          (getUniqueNodeID qNodeIDsWithIsSet (outputQNodeID r) (outputPrimaryCurie r)))
       [] ucResult"

definition uniqueResultID :: "string list \<Rightarrow> ucResult \<Rightarrow> string" where
  "uniqueResultID qNodeIDsWithIsSet ucResult =
     join ''_&_'' (sort (uniqueNodeIDs qNodeIDsWithIsSet ucResult))"

text \<open>
  The identifier as the specification words it: a token per node occurrence, the tokens
  collected into a set, sorted, and joined by the separator.
\<close>

definition spec_token :: "string set \<Rightarrow> string \<Rightarrow> string \<Rightarrow> string" where
  "spec_token isSetNodes qNodeID curie =
     (if qNodeID \<in> isSetNodes then qNodeID else qNodeID @ ''-'' @ curie)"

definition spec_tokens :: "string set \<Rightarrow> ucResult \<Rightarrow> string set" where
  "spec_tokens isSetNodes preresult =
     (\<lambda>r. spec_token isSetNodes (inputQNodeID r) (inputPrimaryCurie r)) ` set preresult \<union>
     (\<lambda>r. spec_token isSetNodes (outputQNodeID r) (outputPrimaryCurie r)) ` set preresult"

definition spec_resultID :: "string set \<Rightarrow> ucResult \<Rightarrow> string" where
  "spec_resultID isSetNodes preresult =
     join ''_&_'' (sorted_list_of_set (spec_tokens isSetNodes preresult))"

subsection \<open>update\<close>

text \<open>The nodes with \<open>is_set\<close>, read from the first record of every query edge.\<close>

fun collectIsSet :: "DataByEdge \<Rightarrow> string list \<Rightarrow> js_error + string list" where
  "collectIsSet [] s = Inr s"
| "collectIsSet ((qEdge, ed) # rest) s =
     (case records ed of
        [] \<Rightarrow> Inl TypeError
      | r0 # _ \<Rightarrow>
          (let s1 = (if getInputIsSet r0 then Set_add s (getInputQueryNodeID r0) else s);
               s2 = (if getOutputIsSet r0 then Set_add s1 (getOutputQueryNodeID r0) else s1)
           in collectIsSet rest s2))"

text \<open>
  The choice of the root edge. The pair is (\<open>initialQEdgeID\<close>, \<open>initialQNodeIDToMatch\<close>),
  both \<open>undefined\<close> at first; a string is truthy when it is not empty.
\<close>

type_synonym initial = "string option \<times> string option"

definition truthy :: "string option \<Rightarrow> bool" where
  "truthy v = (case v of None \<Rightarrow> False | Some s \<Rightarrow> s \<noteq> [])"

fun connected_some ::
  "DataByEdge \<Rightarrow> string \<Rightarrow> string \<Rightarrow> string \<Rightarrow> string list \<Rightarrow> initial \<Rightarrow> js_error + initial" where
  "connected_some recordsByQEdgeID queryEdgeID inQ outQ [] init = Inr init"
| "connected_some recordsByQEdgeID queryEdgeID inQ outQ (c # cs) init =
     (case obj_get recordsByQEdgeID c of
        None \<Rightarrow> Inl TypeError
      | Some nextEdge \<Rightarrow>
         (case records nextEdge of
            [] \<Rightarrow> Inl TypeError
          | r1 # _ \<Rightarrow>
             (if \<not> truthy (fst init) then
                (if inQ \<noteq> getInputQueryNodeID r1 \<and> inQ \<noteq> getOutputQueryNodeID r1
                 then Inr (Some queryEdgeID, Some inQ)
                 else if outQ \<noteq> getOutputQueryNodeID r1
                 then Inr (Some queryEdgeID, Some outQ)
                 else connected_some recordsByQEdgeID queryEdgeID inQ outQ cs init)
              else connected_some recordsByQEdgeID queryEdgeID inQ outQ cs init)))"

fun pairs_some :: "DataByEdge \<Rightarrow> DataByEdge \<Rightarrow> initial \<Rightarrow> js_error + initial" where
  "pairs_some recordsByQEdgeID [] init = Inr init"
| "pairs_some recordsByQEdgeID ((queryEdgeID, ed) # rest) init =
     (case records ed of
        [] \<Rightarrow> Inl TypeError
      | r0 # _ \<Rightarrow>
         (if connected_to ed = [] then
            pairs_some recordsByQEdgeID rest (Some queryEdgeID, Some (getInputQueryNodeID r0))
          else
            (case connected_some recordsByQEdgeID queryEdgeID
                    (getInputQueryNodeID r0) (getOutputQueryNodeID r0) (connected_to ed) init of
               Inl e \<Rightarrow> Inl e
             | Inr init' \<Rightarrow>
                 if truthy (fst init') then Inr init'
                 else pairs_some recordsByQEdgeID rest init')))"

text \<open>A property key made from a value that may be \<open>undefined\<close>.\<close>

definition toKey :: "string option \<Rightarrow> string" where
  "toKey v = (case v of None \<Rightarrow> ''undefined'' | Some s \<Rightarrow> s)"

definition emptyState :: ucState where
  "emptyState = \<lparr>heap = (\<lambda>_. []), nextAddr = 0, ucResults = []\<rparr>"

text \<open>
  The enumeration of the preresults as \<open>update\<close> starts it: a fresh empty array for the
  first preresult, no curie to match. The result is the content of the collected arrays
  when the traversal has ended.
\<close>

definition qEdgeCount :: "DataByEdge \<Rightarrow> nat" where
  "qEdgeCount recordsByQEdgeID = length (Set_from (map fst recordsByQEdgeID))"

definition unconsolidatedResults :: "nat \<Rightarrow> DataByEdge \<Rightarrow> js_error + ucResult list" where
  "unconsolidatedResults depth recordsByQEdgeID =
     (case pairs_some recordsByQEdgeID recordsByQEdgeID (None, None) of
        Inl e \<Rightarrow> Inl e
      | Inr (initialQEdgeID, initialQNodeIDToMatch) \<Rightarrow>
         (let (a, st) = alloc [] emptyState in
          case getUnconsolidatedResults depth recordsByQEdgeID (qEdgeCount recordsByQEdgeID)
                 (toKey initialQEdgeID) a initialQNodeIDToMatch None st of
            Inl e \<Rightarrow> Inl e
          | Inr st' \<Rightarrow> Inr (map (heap st') (ucResults st'))))"

text \<open>Grouping by result identifier: \<open>ucResultsByResultID\<close>.\<close>

definition group_push ::
  "(string \<times> ucResult list) list \<Rightarrow> string \<Rightarrow> ucResult \<Rightarrow> (string \<times> ucResult list) list" where
  "group_push obj k u =
     (case obj_get obj k of
        None \<Rightarrow> obj_set obj k [u]
      | Some us \<Rightarrow> obj_set obj k (us @ [u]))"

definition ucResultsByResultID ::
  "string list \<Rightarrow> ucResult list \<Rightarrow> (string \<times> ucResult list) list" where
  "ucResultsByResultID qNodeIDsWithIsSet ucs =
     foldl (\<lambda>obj u. group_push obj (uniqueResultID qNodeIDsWithIsSet u) u) [] ucs"

text \<open>
  Consolidation of one group. \<open>zip\<close> transposes the group's preresults; where they differ
  in length it pads with \<open>undefined\<close>, and the destructuring of the padded entry raises
  a \<open>TypeError\<close>.
\<close>

record consolidatedRecord =
  c_inputQNodeID :: string
  c_outputQNodeID :: string
  inputPrimaryCuries :: "string list"
  outputPrimaryCuries :: "string list"
  c_qEdgeID :: string
  recordHashes :: "string list"

definition consolidateColumn :: "ucRecord list \<Rightarrow> js_error + consolidatedRecord" where
  "consolidateColumn ucResultRecords =
     (case ucResultRecords of
        [] \<Rightarrow> Inl TypeError
      | r0 # _ \<Rightarrow>
          Inr \<lparr>c_inputQNodeID = inputQNodeID r0,
               c_outputQNodeID = outputQNodeID r0,
               inputPrimaryCuries = Set_from (map inputPrimaryCurie ucResultRecords),
               outputPrimaryCuries = Set_from (map outputPrimaryCurie ucResultRecords),
               c_qEdgeID = qEdgeID r0,
               recordHashes = Set_from (map recordHash ucResultRecords)\<rparr>)"

fun mapM :: "('a \<Rightarrow> js_error + 'b) \<Rightarrow> 'a list \<Rightarrow> js_error + 'b list" where
  "mapM f [] = Inr []"
| "mapM f (x # xs) =
     (case f x of
        Inl e \<Rightarrow> Inl e
      | Inr y \<Rightarrow> (case mapM f xs of Inl e \<Rightarrow> Inl e | Inr ys \<Rightarrow> Inr (y # ys)))"

definition zipAll :: "ucResult list \<Rightarrow> js_error + ucRecord list list" where
  "zipAll us =
     (case us of
        [] \<Rightarrow> Inr []
      | u # _ \<Rightarrow>
          if \<forall>v \<in> set us. length v = length u
          then Inr (map (\<lambda>i. map (\<lambda>v. v ! i) us) [0 ..< length u])
          else Inl TypeError)"

definition consolidate :: "ucResult list \<Rightarrow> js_error + consolidatedRecord list" where
  "consolidate us =
     (case zipAll us of Inl e \<Rightarrow> Inl e | Inr cols \<Rightarrow> mapM consolidateColumn cols)"

text \<open>The TRAPI shape of one consolidated result.\<close>

datatype Binding = Binding (binding_id: string)

record Result =
  node_bindings :: "(string \<times> Binding list) list"
  edge_bindings :: "(string \<times> Binding list) list"
  score :: int

definition addBindings :: "Result \<Rightarrow> consolidatedRecord \<Rightarrow> Result" where
  "addBindings result c =
     (let nb1 = obj_set (node_bindings result) (c_inputQNodeID c)
                  (map Binding (inputPrimaryCuries c));
          nb2 = obj_set nb1 (c_outputQNodeID c) (map Binding (outputPrimaryCuries c));
          eb = obj_set (edge_bindings result) (c_qEdgeID c) (map Binding (recordHashes c))
      in result\<lparr>node_bindings := nb2, edge_bindings := eb\<rparr>)"

definition toResult :: "consolidatedRecord list \<Rightarrow> Result" where
  "toResult cResult =
     foldl addBindings \<lparr>node_bindings = [], edge_bindings = [], score = 1\<rparr> cResult"

definition assemble :: "nat \<Rightarrow> DataByEdge \<Rightarrow> js_error + Result list" where
  "assemble depth recordsByQEdgeID =
     (case collectIsSet recordsByQEdgeID [] of
        Inl e \<Rightarrow> Inl e
      | Inr qNodeIDsWithIsSet \<Rightarrow>
         (case unconsolidatedResults depth recordsByQEdgeID of
            Inl e \<Rightarrow> Inl e
          | Inr ucs \<Rightarrow>
             (case mapM (\<lambda>(uniqueResultID, us). consolidate us)
                     (ucResultsByResultID qNodeIDsWithIsSet ucs) of
                Inl e \<Rightarrow> Inl e
              | Inr consolidatedResults \<Rightarrow> Inr (map toResult consolidatedResults))))"

text \<open>
  The assembler's state is the field \<open>_results\<close>. \<open>update\<close> empties it first, so an
  exception leaves it empty; the first component of the outcome is the exception, if any.
\<close>

record QueryResult =
  results_field :: "Result list"

definition newQueryResult :: QueryResult where
  "newQueryResult = \<lparr>results_field = []\<rparr>"

definition getResults :: "QueryResult \<Rightarrow> Result list" where
  "getResults this = results_field this"

definition update :: "nat \<Rightarrow> DataByEdge \<Rightarrow> QueryResult \<Rightarrow> js_error option \<times> QueryResult" where
  "update depth recordsByQEdgeID this =
     (let this1 = this\<lparr>results_field := []\<rparr> in
      case assemble depth recordsByQEdgeID of
        Inl e \<Rightarrow> (Some e, this1)
      | Inr rs \<Rightarrow> (None, this1\<lparr>results_field := rs\<rparr>))"

subsection \<open>The assembly as the specification describes it\<close>

text \<open>
  The QNodes marked \<open>is_set\<close>: the input node or the output node of a query edge whose
  first record carries the flag for that end.
\<close>

definition spec_isSetNodes :: "DataByEdge \<Rightarrow> string set" where
  "spec_isSetNodes recordsByQEdgeID =
     (\<Union>(qEdge, ed) \<in> set recordsByQEdgeID.
        case records ed of
          [] \<Rightarrow> {}
        | r0 # _ \<Rightarrow>
            (if getInputIsSet r0 then {getInputQueryNodeID r0} else {}) \<union>
            (if getOutputIsSet r0 then {getOutputQueryNodeID r0} else {}))"

text \<open>
  The merge of a group of preresults. \<open>merged f us i\<close> is what the record position
  \<open>i\<close> of all members of the group contributes for the field \<open>f\<close>: the values in
  the order of their first occurrence, each once. \<open>nodeWrites\<close> and \<open>edgeWrites\<close>
  list, position by position, what is bound to which QNode and QEdge identifier (the
  identifiers are those of the group's first member); where an identifier occurs more than
  once, the last binding stands.
\<close>

definition merged :: "(ucRecord \<Rightarrow> string) \<Rightarrow> ucResult list \<Rightarrow> nat \<Rightarrow> Binding list" where
  "merged f us i = map Binding (Set_from (map (\<lambda>u. f (u ! i)) us))"

definition nodeWrites :: "ucResult list \<Rightarrow> (string \<times> Binding list) list" where
  "nodeWrites us =
     concat (map (\<lambda>i. [(inputQNodeID (hd us ! i), merged inputPrimaryCurie us i),
                        (outputQNodeID (hd us ! i), merged outputPrimaryCurie us i)])
               [0 ..< length (hd us)])"

definition edgeWrites :: "ucResult list \<Rightarrow> (string \<times> Binding list) list" where
  "edgeWrites us =
     map (\<lambda>i. (qEdgeID (hd us ! i), merged recordHash us i)) [0 ..< length (hd us)]"

text \<open>
  \<open>mergedInto us r\<close>: the result \<open>r\<close> binds, for every QNode and QEdge identifier,
  exactly what the group \<open>us\<close> merges for it.
\<close>

definition mergedInto :: "ucResult list \<Rightarrow> Result \<Rightarrow> bool" where
  "mergedInto us r \<longleftrightarrow>
     us \<noteq> [] \<and> (\<forall>u \<in> set us. length u = length (hd us)) \<and>
     map_of (node_bindings r) = map_of (rev (nodeWrites us)) \<and>
     map_of (edge_bindings r) = map_of (rev (edgeWrites us)) \<and> score r = 1"

text \<open>The consolidated record of position \<open>i\<close> of a group.\<close>

definition columnOf :: "ucResult list \<Rightarrow> nat \<Rightarrow> consolidatedRecord" where
  "columnOf us i =
     \<lparr>c_inputQNodeID = inputQNodeID (hd us ! i),
      c_outputQNodeID = outputQNodeID (hd us ! i),
      inputPrimaryCuries = Set_from (map (\<lambda>u. inputPrimaryCurie (u ! i)) us),
      outputPrimaryCuries = Set_from (map (\<lambda>u. outputPrimaryCurie (u ! i)) us),
      c_qEdgeID = qEdgeID (hd us ! i),
      recordHashes = Set_from (map (\<lambda>u. recordHash (u ! i)) us)\<rparr>"

section \<open>Query-graph processing errors (invalid\_query\_graph\_error.js, index.js)\<close>

text \<open>
  The fields an \<open>InvalidQueryGraphError\<close> instance has when its constructor returns.
\<close>

record InvalidQueryGraphError =
  err_name :: string
  err_message :: string
  statusCode :: nat

definition new_InvalidQueryGraphError :: "string option \<Rightarrow> InvalidQueryGraphError" where
  "new_InvalidQueryGraphError message =
     \<lparr>err_name = ''InvalidQueryGraphError'',
      err_message = (case message of None \<Rightarrow> ''Your Input Query Graph is invalid.'' | Some m \<Rightarrow> m),
      statusCode = 400\<rparr>"

text \<open>
  A thrown value is either an instance of the class, as its constructor built it from a
  message argument, or anything else.
\<close>

datatype 'x thrown = InstanceOfInvalidQueryGraphError "string option" | Other 'x

text \<open>
  \<open>_processQueryGraph\<close>. The class \<open>QueryGraph\<close> is not part of the sources: the
  outcome of \<open>new QueryGraph(queryGraph)\<close> followed by \<open>calculateEdges()\<close> is the
  argument \<open>calculated\<close>, an exception or the execution edges with the handler's logs.
  The result is the thrown value or the edges with the handler's new log list.
\<close>

definition processQueryGraph ::
  "'x thrown + ('edges \<times> 'log list) \<Rightarrow> 'log list \<Rightarrow> 'x thrown + ('edges \<times> 'log list)" where
  "processQueryGraph calculated logs =
     (case calculated of
        Inr (queryExecutionEdges, handlerLogs) \<Rightarrow> Inr (queryExecutionEdges, logs @ handlerLogs)
      | Inl err \<Rightarrow>
          (case err of
             InstanceOfInvalidQueryGraphError m \<Rightarrow> Inl err
           | Other x \<Rightarrow> Inl (InstanceOfInvalidQueryGraphError None)))"

section \<open>Knowledge graph (graph/knowledge\_graph.js)\<close>

datatype jsval =
    JUndefined | JNull | JBool bool | JNum int | JStr string
  | JArr "jsval list" | JObj "(string \<times> jsval) list"

fun isTruthy :: "jsval \<Rightarrow> bool" where
  "isTruthy JUndefined = False"
| "isTruthy JNull = False"
| "isTruthy (JBool b) = b"
| "isTruthy (JNum n) = (n \<noteq> 0)"
| "isTruthy (JStr s) = (s \<noteq> [])"
| "isTruthy (JArr xs) = True"
| "isTruthy (JObj kvs) = True"

text \<open>The spread \<open>...v\<close> inside an array literal: arrays and strings are iterable.\<close>

fun spread :: "jsval \<Rightarrow> js_error + jsval list" where
  "spread (JArr xs) = Inr xs"
| "spread (JStr s) = Inr (map (\<lambda>c. JStr [c]) s)"
| "spread v = Inl TypeError"

record KGEdge =
  kg_predicate :: string
  kg_subject :: string
  kg_object :: string
  apis :: "string list"
  sources :: "string list"
  inforesCuries :: "string list"
  publications :: "string list"
  kg_attributes :: "(string \<times> jsval) list"

record KGNode =
  primaryID :: string
  semanticType :: string
  label :: string
  curies :: "string list"
  names :: "string list"
  sourceNodes :: "string list"
  targetNodes :: "string list"
  sourceQGNodes :: "string list"
  targetQGNodes :: "string list"
  nodeAttributes :: "(string \<times> jsval) list"

record TrapiNode =
  categories :: "string list"
  node_name :: string
  node_attributes :: "jsval list"

record TrapiEdge =
  edge_predicate :: string
  edge_subject :: string
  edge_object :: string
  edge_attributes :: "jsval list"

definition attribute :: "string \<Rightarrow> jsval \<Rightarrow> string \<Rightarrow> jsval" where
  "attribute type_id v value_type =
     JObj [(''attribute_type_id'', JStr type_id), (''value'', v), (''value_type_id'', JStr value_type)]"

definition strings :: "string list \<Rightarrow> jsval" where
  "strings xs = JArr (map JStr xs)"

definition createNode :: "KGNode \<Rightarrow> TrapiNode" where
  "createNode kgNode =
     \<lparr>categories = [''biolink:'' @ semanticType kgNode],
      node_name = label kgNode,
      node_attributes =
        [JObj [(''attribute_type_id'', JStr ''biolink:xref''), (''value'', strings (curies kgNode))],
         JObj [(''attribute_type_id'', JStr ''biolink:synonym''), (''value'', strings (names kgNode))],
         attribute ''num_source_nodes'' (JNum (int (length (sourceNodes kgNode)))) ''bts:num_source_nodes'',
         attribute ''num_target_nodes'' (JNum (int (length (targetNodes kgNode)))) ''bts:num_target_nodes'',
         attribute ''source_qg_nodes'' (strings (sourceQGNodes kgNode)) ''bts:source_qg_nodes'',
         attribute ''target_qg_nodes'' (strings (targetQGNodes kgNode)) ''bts:target_qg_nodes'']
        @ map (\<lambda>(key, v). attribute key v (''bts:'' @ key)) (nodeAttributes kgNode)\<rparr>"

definition directProviders :: "string list" where
  "directProviders =
     [''Clinical Risk KP API'',
      ''Text Mining Targeted Association API'',
      ''Multiomics Wellness KP API'',
      ''Drug Response KP API'',
      ''Text Mining Co-occurrence API'',
      ''TCGA Mutation Frequency API'']"

definition createAttributes :: "KGEdge \<Rightarrow> js_error + jsval list" where
  "createAttributes kgEdge =
     (let attributes =
            [attribute ''biolink:aggregator_knowledge_source''
               (JArr [JStr ''infores:translator-biothings-explorer''])
               ''biolink:InformationResource''];
          trapi = (case obj_get (kg_attributes kgEdge) ''attributes'' of
                     None \<Rightarrow> JUndefined | Some v \<Rightarrow> v)
      in if isTruthy trapi then
           (case spread trapi of
              Inl e \<Rightarrow> Inl e
            | Inr passed \<Rightarrow> Inr (attributes @ passed))
         else if \<exists>api_name \<in> set directProviders. api_name \<in> set (apis kgEdge) then
           Inr (attributes @
                [attribute ''biolink:supporting_data_source'' (strings (sources kgEdge))
                   ''biolink:InformationResource'',
                 attribute ''biolink:primary_knowledge_source'' (strings (inforesCuries kgEdge))
                   ''biolink:InformationResource'',
                 attribute ''publications'' (strings (publications kgEdge)) ''biolink:publication'']
                @ map (\<lambda>(key, v). attribute key v (''bts:'' @ key)) (kg_attributes kgEdge))
         else
           Inr (attributes @
                [attribute ''biolink:primary_knowledge_source'' (strings (sources kgEdge))
                   ''biolink:InformationResource'',
                 attribute ''biolink:aggregator_knowledge_source'' (strings (inforesCuries kgEdge))
                   ''biolink:InformationResource'',
                 attribute ''publications'' (strings (publications kgEdge)) ''biolink:publication'']
                @ map (\<lambda>(key, v). attribute key v (''bts:'' @ key)) (kg_attributes kgEdge)))"

definition createEdge :: "KGEdge \<Rightarrow> js_error + TrapiEdge" where
  "createEdge kgEdge =
     (case createAttributes kgEdge of
        Inl e \<Rightarrow> Inl e
      | Inr attributes \<Rightarrow>
          Inr \<lparr>edge_predicate = kg_predicate kgEdge,
               edge_subject = kg_subject kgEdge,
               edge_object = kg_object kgEdge,
               edge_attributes = attributes\<rparr>)"

record BTEGraph =
  bte_nodes :: "(string \<times> KGNode) list"
  bte_edges :: "(string \<times> KGEdge) list"

record KnowledgeGraph =
  kg_nodes :: "(string \<times> TrapiNode) list"
  kg_edges :: "(string \<times> TrapiEdge) list"

definition newKnowledgeGraph :: KnowledgeGraph where
  "newKnowledgeGraph = \<lparr>kg_nodes = [], kg_edges = []\<rparr>"

text \<open>
  \<open>update\<close> writes the nodes, then the edges, in place; an exception from
  \<open>_createEdge\<close> leaves what was written before it.
\<close>

fun update_edges ::
  "(string \<times> TrapiEdge) list \<Rightarrow> (string \<times> KGEdge) list \<Rightarrow>
   js_error option \<times> (string \<times> TrapiEdge) list" where
  "update_edges es [] = (None, es)"
| "update_edges es ((edge, kgEdge) # rest) =
     (case createEdge kgEdge of
        Inl e \<Rightarrow> (Some e, es)
      | Inr created \<Rightarrow> update_edges (obj_set es edge created) rest)"

definition kg_update :: "KnowledgeGraph \<Rightarrow> BTEGraph \<Rightarrow> js_error option \<times> KnowledgeGraph" where
  "kg_update this bteGraph =
     (let ns = foldl (\<lambda>m (node, kgNode). obj_set m (primaryID kgNode) (createNode kgNode))
                 (kg_nodes this) (bte_nodes bteGraph);
          (err, es) = update_edges (kg_edges this) (bte_edges bteGraph)
      in (err, this\<lparr>kg_nodes := ns, kg_edges := es\<rparr>))"

text \<open>The knowledge graphs a builder can hold: a new one, updated any number of times.\<close>

inductive built :: "KnowledgeGraph \<Rightarrow> bool" where
  built_new: "built newKnowledgeGraph"
| built_update: "built kg \<Longrightarrow> built (snd (kg_update kg bteGraph))"

definition field :: "jsval \<Rightarrow> string \<Rightarrow> jsval" where
  "field v k =
     (case v of
        JObj kvs \<Rightarrow> (case map_of kvs k of None \<Rightarrow> JUndefined | Some x \<Rightarrow> x)
      | _ \<Rightarrow> JUndefined)"

definition beginsWithAggregator :: "jsval list \<Rightarrow> bool" where
  "beginsWithAggregator attributes =
     (case attributes of
        [] \<Rightarrow> False
      | a # _ \<Rightarrow>
          field a ''attribute_type_id'' = JStr ''biolink:aggregator_knowledge_source'' \<and>
          field a ''value'' = JArr [JStr ''infores:translator-biothings-explorer''])"


section \<open>Cache key (query\_execution\_edge.js, cache\_handler.js)\<close>

text \<open>
  The query node class and the helper's \<open>_generateHash\<close> are not part of the sources.
  A node is what its two getters return: \<open>getCategories()\<close>, an array of strings, and
  \<open>getCurie()\<close>, which is \<open>undefined\<close>, a string or an array of strings. The hash
  function is the parameter \<open>generateHash\<close>.
\<close>

datatype curie_val = Undefined | Str string | Arr "string list"

record QNode =
  getCategories :: "string list"
  getCurie :: curie_val

record QExeEdge =
  qEdge_subject :: QNode
  qEdge_object :: QNode
  subject :: QNode
  predicate :: curie_val
  object :: QNode

text \<open>
  String conversion as \<open>+\<close> applies it: an array is its elements joined by commas, an
  \<open>undefined\<close> element of an array is the empty string, \<open>undefined\<close> itself is the
  text \<open>undefined\<close>.
\<close>

definition arrayToString :: "string option list \<Rightarrow> string" where
  "arrayToString xs = join '','' (map (\<lambda>x. case x of None \<Rightarrow> [] | Some s \<Rightarrow> s) xs)"

definition toString :: "curie_val \<Rightarrow> string" where
  "toString v =
     (case v of Undefined \<Rightarrow> ''undefined'' | Str s \<Rightarrow> s | Arr xs \<Rightarrow> join '','' xs)"

definition curieTruthy :: "curie_val \<Rightarrow> bool" where
  "curieTruthy v = (case v of Undefined \<Rightarrow> False | Str s \<Rightarrow> s \<noteq> [] | Arr xs \<Rightarrow> True)"

definition getInputCurie_edge :: "QExeEdge \<Rightarrow> string option list" where
  "getInputCurie_edge this =
     (let curie = (if curieTruthy (getCurie (qEdge_subject this))
                   then getCurie (qEdge_subject this) else getCurie (qEdge_object this))
      in case curie of
           Arr xs \<Rightarrow> map Some xs
         | Str s \<Rightarrow> [Some s]
         | Undefined \<Rightarrow> [None])"

definition toBeHashed :: "QExeEdge \<Rightarrow> string" where
  "toBeHashed this =
     join '','' (getCategories (subject this)) @ toString (predicate this) @
     join '','' (getCategories (object this)) @ arrayToString (getInputCurie_edge this)"

definition getHashedEdgeRepresentation :: "(string \<Rightarrow> string) \<Rightarrow> QExeEdge \<Rightarrow> string" where
  "getHashedEdgeRepresentation generateHash this = generateHash (toBeHashed this)"

text \<open>\<open>String(n)\<close> for a length.\<close>

fun decimal :: "nat \<Rightarrow> string" where
  "decimal n =
     (if n < 10 then [char_of (48 + n)]
      else decimal (n div 10) @ [char_of (48 + n mod 10)])"

text \<open>The MetaKG as the cache handler reads it: the \<open>association.smartapi.id\<close> of every operation.\<close>

record MetaKG =
  ops :: "string list"

definition allIDs :: "MetaKG \<Rightarrow> string" where
  "allIDs metaKG = concat (Set_from (ops metaKG))"

definition hashEdgeByKG :: "(string \<Rightarrow> string) \<Rightarrow> MetaKG option \<Rightarrow> string \<Rightarrow> string" where
  "hashEdgeByKG generateHash metaKG qXEdgeHash =
     (case metaKG of
        None \<Rightarrow> qXEdgeHash
      | Some kg \<Rightarrow> generateHash (qXEdgeHash @ decimal (length (ops kg)) @ allIDs kg))"

definition cacheKey :: "(string \<Rightarrow> string) \<Rightarrow> MetaKG option \<Rightarrow> QExeEdge \<Rightarrow> string" where
  "cacheKey generateHash metaKG qXEdge =
     hashEdgeByKG generateHash metaKG (getHashedEdgeRepresentation generateHash qXEdge)"

text \<open>What the key is computed from on the side of the MetaKG.\<close>

definition kgComponents :: "MetaKG option \<Rightarrow> (nat \<times> string) option" where
  "kgComponents metaKG = map_option (\<lambda>kg. (length (ops kg), allIDs kg)) metaKG"

section \<open>Cache payload streams (cache\_handler.js)\<close>

text \<open>
  JSON, LZ4 and base64url are libraries. \<open>encode\<close> stands for
  \<open>lz4.encode(JSON.stringify(chunk)).toString('base64url')\<close> and \<open>parse\<close> for
  \<open>JSON.parse(lz4.decode(Buffer.from(part, 'base64url')).toString())\<close>, which is
  \<open>None\<close> where the library call throws.
\<close>

definition encodeStream :: "('o \<Rightarrow> string) \<Rightarrow> 'o list \<Rightarrow> string" where
  "encodeStream encode rs = concat (map (\<lambda>r. encode r @ '','') rs)"

definition chunkSize :: nat where
  "chunkSize = 100000"

text \<open>
  \<open>chunker(100000, {flush: true})\<close>: the bytes regrouped into pieces of exactly
  \<open>chunkSize\<close>, the remainder flushed as a last shorter piece.
\<close>

function chunker :: "string \<Rightarrow> string list" where
  "chunker s =
     (if s = [] then []
      else if length s \<le> chunkSize then [s]
      else take chunkSize s # chunker (drop chunkSize s))"
  by pat_completeness auto
termination
  by (relation "measure length") (auto simp: chunkSize_def)

declare chunker.simps [simp del]

text \<open>\<open>String.prototype.split(',')\<close>.\<close>

fun split_comma :: "string \<Rightarrow> string list" where
  "split_comma [] = [[]]"
| "split_comma (c # cs) =
     (if c = CHR '','' then [] # split_comma cs
      else (case split_comma cs of p # ps \<Rightarrow> (c # p) # ps | [] \<Rightarrow> [[c]]))"

record 'o DelimitedChunks =
  buffer :: string
  pushed :: "'o list"

text \<open>
  How a call of \<open>_transform\<close> ends: it called \<open>callback()\<close>, it returned without
  calling it, or an exception left it.
\<close>

datatype 'o transformed =
    Called "'o DelimitedChunks" | NotCalled "'o DelimitedChunks" | Threw "'o DelimitedChunks"

fun push_parts :: "(string \<Rightarrow> 'o option) \<Rightarrow> string list \<Rightarrow> 'o DelimitedChunks \<Rightarrow> 'o transformed" where
  "push_parts parse [] this = Called this"
| "push_parts parse (part # parts) this =
     (case parse part of
        None \<Rightarrow> Threw this
      | Some parsedPart \<Rightarrow> push_parts parse parts (this\<lparr>pushed := pushed this @ [parsedPart]\<rparr>))"

definition transform :: "(string \<Rightarrow> 'o option) \<Rightarrow> string \<Rightarrow> 'o DelimitedChunks \<Rightarrow> 'o transformed" where
  "transform parse chunk this =
     (let this1 = this\<lparr>buffer := buffer this @ chunk\<rparr> in
      if CHR '','' \<in> set (buffer this1) then
        (let parts = split_comma (buffer this1) in
         push_parts parse (butlast parts) (this1\<lparr>buffer := last parts\<rparr>))
      else NotCalled this1)"

text \<open>
  \<open>_flush\<close>. With an empty buffer it calls \<open>callback()\<close> once. With a buffer that
  is parsed it calls \<open>callback(null, final)\<close> and then falls through to a second
  \<open>callback()\<close>. With a buffer that is not parsed it calls \<open>callback(error)\<close>.
\<close>

datatype 'o flushed = FlushDataThenAgain 'o | FlushNothing | FlushError

definition flush :: "(string \<Rightarrow> 'o option) \<Rightarrow> 'o DelimitedChunks \<Rightarrow> 'o flushed" where
  "flush parse this =
     (if buffer this \<noteq> [] then
        (case parse (buffer this) of None \<Rightarrow> FlushError | Some final \<Rightarrow> FlushDataThenAgain final)
      else FlushNothing)"

text \<open>
  The stream as its consumer sees it. A transform stream takes the next chunk only after
  the callback of the previous one, and emits \<open>end\<close> only after a flush that calls its
  callback once and without an error; a callback called twice destroys the stream with
  \<open>ERR_MULTIPLE_CALLBACK\<close>. \<open>Ended\<close> carries the objects of the \<open>data\<close> events
  before \<open>end\<close>; \<open>Stalled\<close> is a stream that waits for a callback for ever;
  \<open>Errored\<close> is a stream that an exception or an \<open>error\<close> event ended. Neither of
  the last two emits \<open>end\<close>. A stream written by \<open>createEncodeStream\<close> ends with
  the delimiter and leaves the buffer empty at the flush.
\<close>

datatype 'o stream_outcome = Ended "'o list" | Stalled | Errored

fun decodeFrom ::
  "(string \<Rightarrow> 'o option) \<Rightarrow> 'o DelimitedChunks \<Rightarrow> string list \<Rightarrow> 'o stream_outcome" where
  "decodeFrom parse this [] =
     (case flush parse this of
        FlushDataThenAgain final \<Rightarrow> Errored
      | FlushNothing \<Rightarrow> Ended (pushed this)
      | FlushError \<Rightarrow> Errored)"
| "decodeFrom parse this (chunk # chunks) =
     (case transform parse chunk this of
        Called this' \<Rightarrow> decodeFrom parse this' chunks
      | NotCalled this' \<Rightarrow> Stalled
      | Threw this' \<Rightarrow> Errored)"

definition decodeStream :: "(string \<Rightarrow> 'o option) \<Rightarrow> string list \<Rightarrow> 'o stream_outcome" where
  "decodeStream parse chunks = decodeFrom parse \<lparr>buffer = [], pushed = []\<rparr> chunks"

text \<open>
  One cache lookup of \<open>categorizeEdges\<close>. The reply of \<open>hgetallAsync\<close> is an exception,
  \<open>null\<close>, or the hash as its fields (the chunk index and the chunk). The promise is
  resolved by \<open>resolve(null)\<close>, by the \<open>end\<close> handler, or never; the lock is held
  from \<open>redisClient.lock\<close> to \<open>unlock()\<close>.
\<close>

datatype reply = ReplyError | ReplyNull | ReplyHash "(nat \<times> string) list"

datatype 'o promise = Resolved "'o list option" | NeverResolved

record 'o lookup =
  cachedRecordJSON :: "'o promise"
  lockHeld :: bool

definition lookupEdge :: "(string \<Rightarrow> 'o option) \<Rightarrow> reply \<Rightarrow> 'o lookup" where
  "lookupEdge parse cachedRecord =
     (let locked = \<lparr>cachedRecordJSON = NeverResolved, lockHeld = True\<rparr>;
          tried =
            (case cachedRecord of
               ReplyError \<Rightarrow> locked\<lparr>cachedRecordJSON := Resolved None\<rparr>
             | ReplyNull \<Rightarrow> locked\<lparr>cachedRecordJSON := Resolved None\<rparr>
             | ReplyHash entries \<Rightarrow>
                 (let sortedRecords = map snd (sort_key fst entries) in
                  case decodeStream parse sortedRecords of
                    Ended decodedRecords \<Rightarrow> locked\<lparr>cachedRecordJSON := Resolved (Some decodedRecords)\<rparr>
                  | Stalled \<Rightarrow> locked
                  | Errored \<Rightarrow> locked))
      in tried\<lparr>lockHeld := False\<rparr>)"

text \<open>
  \<open>categorizeEdges\<close> with caching enabled. It awaits every lookup, so it returns only
  if every promise is resolved (\<open>None\<close> otherwise). \<open>restore\<close> sets the
  \<open>trapi_qEdge_obj\<close> of a cached record to the edge; \<open>hashOf\<close> is the edge's key and
  \<open>redis\<close> the reply for a key. \<open>cacheHits\<close> are the edges for which the
  \<open>cacheHit\<close> log entry is pushed.
\<close>

record ('o, 'e) categorized =
  cachedRecords :: "'o list"
  nonCachedQXEdges :: "'e list"
  cacheHits :: "'e list"

fun categorizeFrom ::
  "(string \<Rightarrow> 'o option) \<Rightarrow> ('e \<Rightarrow> 'o \<Rightarrow> 'o) \<Rightarrow> ('e \<Rightarrow> string) \<Rightarrow> (string \<Rightarrow> reply) \<Rightarrow>
   'e list \<Rightarrow> ('o, 'e) categorized \<Rightarrow> ('o, 'e) categorized option" where
  "categorizeFrom parse restore hashOf redis [] acc = Some acc"
| "categorizeFrom parse restore hashOf redis (qXEdge # rest) acc =
     (case cachedRecordJSON (lookupEdge parse (redis (hashOf qXEdge))) of
        NeverResolved \<Rightarrow> None
      | Resolved None \<Rightarrow>
          categorizeFrom parse restore hashOf redis rest
            (acc\<lparr>nonCachedQXEdges := nonCachedQXEdges acc @ [qXEdge]\<rparr>)
      | Resolved (Some recs) \<Rightarrow>
          categorizeFrom parse restore hashOf redis rest
            (acc\<lparr>cachedRecords := cachedRecords acc @ map (restore qXEdge) recs,
                 cacheHits := cacheHits acc @ [qXEdge]\<rparr>))"

definition categorizeEdges ::
  "(string \<Rightarrow> 'o option) \<Rightarrow> ('e \<Rightarrow> 'o \<Rightarrow> 'o) \<Rightarrow> ('e \<Rightarrow> string) \<Rightarrow> (string \<Rightarrow> reply) \<Rightarrow>
   'e list \<Rightarrow> ('o, 'e) categorized option" where
  "categorizeEdges parse restore hashOf redis qXEdges =
     categorizeFrom parse restore hashOf redis qXEdges
       \<lparr>cachedRecords = [], nonCachedQXEdges = [], cacheHits = []\<rparr>"


section \<open>The query loop (index.js)\<close>

text \<open>
  A log entry as \<open>new LogEntry(level, code, message, data).getLog()\<close> carries it.
\<close>

record Log =
  level :: string
  message :: string
  data :: "(string \<times> jsval) list option"

definition LogEntry :: "string \<Rightarrow> string \<Rightarrow> (string \<times> jsval) list option \<Rightarrow> Log" where
  "LogEntry lvl msg d = \<lparr>level = lvl, message = msg, data = d\<rparr>"

text \<open>\<open>data?.k\<close> on a log entry.\<close>

definition dataField :: "Log \<Rightarrow> string \<Rightarrow> jsval" where
  "dataField l k =
     (case data l of
        None \<Rightarrow> JUndefined
      | Some d \<Rightarrow> (case map_of d k of None \<Rightarrow> JUndefined | Some v \<Rightarrow> v))"

text \<open>\<open>_logSkippedQueries\<close>: one warning for every API with more than one failed query.\<close>

definition skipMessage :: "string \<Rightarrow> int \<Rightarrow> string" where
  "skipMessage api skippedQueries =
     decimal (nat skippedQueries) @ '' additional quer'' @
     (if skippedQueries > 1 then ''ies'' else ''y'') @ '' to '' @ api @ '' '' @
     (if skippedQueries > 1 then ''were'' else ''was'') @
     '' skipped as the API was unavailable.''"

fun logSkippedQueries :: "(string \<times> int) list \<Rightarrow> Log list \<Rightarrow> Log list" where
  "logSkippedQueries [] logs = logs"
| "logSkippedQueries ((api, skippedQueries) # rest) logs =
     (if skippedQueries - 1 > 0
      then logSkippedQueries rest
             (logs @ [LogEntry ''WARNING'' (skipMessage api (skippedQueries - 1)) None])
      else logSkippedQueries rest logs)"

text \<open>
  The edge manager, the batch edge query handler and the execution edges are not part of
  the sources. They are the record of operations below: \<open>'e\<close> is an execution edge,
  \<open>'r\<close> a record and \<open>'w\<close> all the state these objects hold. \<open>handler_query\<close>
  is \<open>handler.query(handler.qXEdges, unavailableAPIs)\<close> on the handler made for the
  edge; it returns the records, \<open>handler.logs\<close> and the updated \<open>unavailableAPIs\<close>.
\<close>

record ('e, 'r, 'w) collaborators =
  getEdgesNotExecuted :: "'w \<Rightarrow> bool"
  getNext :: "'w \<Rightarrow> 'e \<times> 'w"
  handler_query :: "'e \<Rightarrow> (string \<times> int) list \<Rightarrow> 'w \<Rightarrow> 'r list \<times> Log list \<times> (string \<times> int) list \<times> 'w"
  storeRecords :: "'e \<Rightarrow> 'r list \<Rightarrow> 'w \<Rightarrow> 'w"
  updateEdgeRecords :: "'e \<Rightarrow> 'w \<Rightarrow> 'w"
  updateAllOtherEdges :: "'e \<Rightarrow> 'w \<Rightarrow> 'w"
  edge_records :: "'e \<Rightarrow> 'w \<Rightarrow> 'r list"
  markExecuted :: "'e \<Rightarrow> 'w \<Rightarrow> 'w"
  getID :: "'e \<Rightarrow> string"
  isReversed :: "'e \<Rightarrow> bool"
  subject_id :: "'e \<Rightarrow> string"
  object_id :: "'e \<Rightarrow> string"
  qEdge_id :: "'e \<Rightarrow> string"

definition executingMessage :: "('e, 'r, 'w) collaborators \<Rightarrow> 'e \<Rightarrow> string" where
  "executingMessage c e =
     ''Executing '' @ getID c e @ (if isReversed c e then '' (reversed)'' else []) @ '': '' @
     subject_id c e @ '' '' @ (if isReversed c e then ''<--'' else ''-->'') @ '' '' @ object_id c e"

definition executionSummary :: "('e, 'r, 'w) collaborators \<Rightarrow> 'e \<Rightarrow> Log list \<Rightarrow> nat \<Rightarrow> string" where
  "executionSummary c e logs n =
     (let mine = filter (\<lambda>l. dataField l ''qEdgeID'' = JStr (qEdge_id c e)) logs;
          cached = length (filter (\<lambda>l. dataField l ''type'' = JStr ''cacheHit'') mine);
          queries = filter (\<lambda>l. dataField l ''type'' = JStr ''query'') mine;
          success = length (filter (\<lambda>l. \<not> isTruthy (dataField l ''error'')) queries);
          fail = length (filter (\<lambda>l. isTruthy (dataField l ''error'')) queries);
          total = length queries
      in qEdge_id c e @ '' execution: '' @ decimal total @ '' queries ('' @ decimal success @
         '' success/'' @ decimal fail @ '' fail) and ('' @ decimal cached @
         '') cached qEdges return ('' @ decimal n @ '') records'')"

definition gotNoRecords :: "string \<Rightarrow> Log" where
  "gotNoRecords edgeID =
     LogEntry ''WARNING'' (''qEdge ('' @ edgeID @ '') got 0 records. Your query terminates.'') None"

definition keptNoRecords :: "string \<Rightarrow> Log" where
  "keptNoRecords edgeID =
     LogEntry ''WARNING'' (''qEdge ('' @ edgeID @ '') kept 0 records. Your query terminates.'') None"

text \<open>
  One pass through the body of the \<open>while\<close> loop: it either reaches the end of the body
  or leaves \<open>query\<close> by \<open>return\<close>. The state is the handler's logs, the object
  \<open>unavailableAPIs\<close> and the collaborators' state.
\<close>

datatype 's pass = Continue 's | Return 's

definition loop_body ::
  "('e, 'r, 'w) collaborators \<Rightarrow> Log list \<times> (string \<times> int) list \<times> 'w \<Rightarrow>
   (Log list \<times> (string \<times> int) list \<times> 'w) pass" where
  "loop_body c s =
     (case s of (logs, unavailableAPIs, w) \<Rightarrow>
      (case getNext c w of (currentQXEdge, w1) \<Rightarrow>
       (let logs1 = logs @ [LogEntry ''INFO'' (executingMessage c currentQXEdge) None] in
        case handler_query c currentQXEdge unavailableAPIs w1 of
          (queryRecords, handlerLogs, unavailableAPIs', w2) \<Rightarrow>
        (let logs2 = logs1 @ handlerLogs;
             logs3 = logs2 @ [LogEntry ''INFO''
                       (executionSummary c currentQXEdge logs2 (length queryRecords)) (Some [])]
         in if length queryRecords = 0 then
              Return (logSkippedQueries unavailableAPIs' logs3 @ [gotNoRecords (getID c currentQXEdge)],
                      unavailableAPIs', w2)
            else
              (let w3 = updateAllOtherEdges c currentQXEdge
                          (updateEdgeRecords c currentQXEdge
                             (storeRecords c currentQXEdge queryRecords w2))
               in if length (edge_records c currentQXEdge w3) = 0 then
                    Return (logSkippedQueries unavailableAPIs' logs3 @
                              [keptNoRecords (getID c currentQXEdge)],
                            unavailableAPIs', w3)
                  else Continue (logs3, unavailableAPIs', markExecuted c currentQXEdge w3))))))"

text \<open>
  The loop runs as long as the manager reports edges not executed; \<open>query_loop n\<close> makes
  at most \<open>n\<close> tests of the condition and is \<open>None\<close> when the loop needs more.
\<close>

fun query_loop ::
  "nat \<Rightarrow> ('e, 'r, 'w) collaborators \<Rightarrow> Log list \<times> (string \<times> int) list \<times> 'w \<Rightarrow>
   (Log list \<times> (string \<times> int) list \<times> 'w) pass option" where
  "query_loop 0 c s = None"
| "query_loop (Suc n) c s =
     (if getEdgesNotExecuted c (snd (snd s)) then
        (case loop_body c s of
           Return s' \<Rightarrow> Some (Return s')
         | Continue s' \<Rightarrow> query_loop n c s')
      else Some (Continue s))"

record 'q TRAPIQueryHandler =
  logs :: "Log list"
  queryGraph :: 'q
  knowledgeGraph :: KnowledgeGraph
  trapiResultsAssembler :: QueryResult

definition initializeResponse :: "'q TRAPIQueryHandler \<Rightarrow> 'q TRAPIQueryHandler" where
  "initializeResponse this =
     this\<lparr>knowledgeGraph := newKnowledgeGraph, trapiResultsAssembler := newQueryResult\<rparr>"

record 'q Response =
  workflow :: "(string \<times> string) list list"
  message_query_graph :: 'q
  message_knowledge_graph :: KnowledgeGraph
  message_results :: "Result list"
  response_logs :: "Log list"

definition getResponse :: "'q TRAPIQueryHandler \<Rightarrow> 'q Response" where
  "getResponse this =
     \<lparr>workflow = [[(''id'', ''lookup'')]],
      message_query_graph = queryGraph this,
      message_knowledge_graph = knowledgeGraph this,
      message_results = getResults (trapiResultsAssembler this),
      response_logs = logs this\<rparr>"

definition warnMissingAPIs :: "string list option \<Rightarrow> 'q TRAPIQueryHandler \<Rightarrow> 'q TRAPIQueryHandler" where
  "warnMissingAPIs missingAPIs this =
     (case missingAPIs of
        None \<Rightarrow> this
      | Some titles \<Rightarrow>
          this\<lparr>logs := logs this @
            [LogEntry ''WARNING''
               (''The following APIs were unavailable at the time of execution: '' @
                join '', '' titles) None]\<rparr>)"

text \<open>
  \<open>query\<close>. What lies outside the loop and depends on code that is not part of the
  sources is an argument: \<open>missingAPIs\<close> are the titles in \<open>global.missingAPIs\<close>,
  \<open>calculated\<close> the outcome of the query graph handler, \<open>supported\<close> the result and
  the logs of \<open>_edgesSupported\<close>, \<open>initial\<close> the collaborators' state for the
  execution edges, and \<open>finish\<close> everything after the loop's normal end (collecting the
  records, updating the graph and the results, the summary logs). The outcome is the
  exception thrown, if any, with the handler as \<open>query\<close> leaves it; \<open>None\<close> is a loop
  that does not end within \<open>n\<close> tests.
\<close>

definition query ::
  "nat \<Rightarrow> ('e, 'r, 'w) collaborators \<Rightarrow> string list option \<Rightarrow>
   ('x thrown + ('edges \<times> Log list)) \<Rightarrow> ('edges \<Rightarrow> bool \<times> Log list) \<Rightarrow> ('edges \<Rightarrow> 'w) \<Rightarrow>
   ('q TRAPIQueryHandler \<Rightarrow> 'w \<Rightarrow> 'q TRAPIQueryHandler) \<Rightarrow>
   'q TRAPIQueryHandler \<Rightarrow> ('x thrown option \<times> 'q TRAPIQueryHandler) option" where
  "query n c missingAPIs calculated supported initial finish this =
     (let this2 = warnMissingAPIs missingAPIs (initializeResponse this)
      in case processQueryGraph calculated (logs this2) of
           Inl err \<Rightarrow> Some (Some err, this2)
         | Inr (queryExecutionEdges, logs3) \<Rightarrow>
            (case supported queryExecutionEdges of (ok, supportLogs) \<Rightarrow>
              if \<not> ok then Some (None, this2\<lparr>logs := logs3 @ supportLogs\<rparr>)
              else
                (case query_loop n c (logs3 @ supportLogs, [], initial queryExecutionEdges) of
                   None \<Rightarrow> None
                 | Some (Return (logs', unavailableAPIs, w)) \<Rightarrow> Some (None, this2\<lparr>logs := logs'\<rparr>)
                 | Some (Continue (logs', unavailableAPIs, w)) \<Rightarrow>
                     Some (None, finish (this2\<lparr>logs := logSkippedQueries unavailableAPIs logs'\<rparr>) w))))"

text \<open>
  \<open>reaches c s0 s\<close>: the loop started in state \<open>s0\<close> arrives at its test in state
  \<open>s\<close> after some number of complete passes.
\<close>

inductive reaches ::
  "('e, 'r, 'w) collaborators \<Rightarrow> Log list \<times> (string \<times> int) list \<times> 'w \<Rightarrow>
   Log list \<times> (string \<times> int) list \<times> 'w \<Rightarrow> bool" where
  reaches_start: "reaches c s0 s0"
| reaches_pass:
    "reaches c s0 s \<Longrightarrow> getEdgesNotExecuted c (snd (snd s)) \<Longrightarrow> loop_body c s = Continue s' \<Longrightarrow>
     reaches c s0 s'"

section \<open>Properties of the results assembler\<close>

subsection \<open>Sets, objects and sorting\<close>

lemma set_Set_add: "set (Set_add s x) = insert x (set s)"
  by (auto simp: Set_add_def)

lemma distinct_Set_add: "distinct s \<Longrightarrow> distinct (Set_add s x)"
  by (simp add: Set_add_def)

lemma set_foldl_Set_add: "set (foldl Set_add s xs) = set s \<union> set xs"
  by (induction xs arbitrary: s) (auto simp: set_Set_add)

lemma distinct_foldl_Set_add: "distinct s \<Longrightarrow> distinct (foldl Set_add s xs)"
  by (induction xs arbitrary: s) (auto simp: distinct_Set_add)

lemma set_Set_from: "set (Set_from xs) = set xs"
  by (simp add: Set_from_def set_foldl_Set_add)

lemma distinct_Set_from: "distinct (Set_from xs)"
  by (simp add: Set_from_def distinct_foldl_Set_add)

lemma sort_distinct: "distinct xs \<Longrightarrow> sort xs = sorted_list_of_set (set xs)"
  by (simp add: sorted_list_of_set_sort_remdups distinct_remdups_id)

lemma map_of_obj_set: "map_of (obj_set obj k v) = (map_of obj)(k \<mapsto> v)"
  by (induction obj k v rule: obj_set.induct) (auto simp: fun_eq_iff)

lemma keys_obj_set:
  "map fst (obj_set obj k v) = (if k \<in> fst ` set obj then map fst obj else map fst obj @ [k])"
  by (induction obj k v rule: obj_set.induct) auto

lemma set_obj_set: "p \<in> set (obj_set obj k v) \<Longrightarrow> p \<in> set obj \<or> p = (k, v)"
  by (induction obj k v rule: obj_set.induct) (auto split: if_splits)

lemma mapM_all2: "mapM f xs = Inr ys \<Longrightarrow> list_all2 (\<lambda>x y. f x = Inr y) xs ys"
  by (induction xs arbitrary: ys) (auto split: sum.splits)

lemma mapM_set: "mapM f xs = Inr ys \<Longrightarrow> y \<in> set ys \<Longrightarrow> \<exists>x \<in> set xs. f x = Inr y"
  by (induction xs arbitrary: ys) (auto split: sum.splits)

subsection \<open>The consolidated result identifier\<close>

lemma getUniqueNodeID_spec:
  "getUniqueNodeID isSet q c = spec_token (set isSet) q c"
  by (simp add: getUniqueNodeID_def spec_token_def)

lemma uniqueNodeIDs_foldl:
  "set (foldl (\<lambda>s r. Set_add (Set_add s (f r)) (g r)) s0 uc) = set s0 \<union> f ` set uc \<union> g ` set uc \<and>
   (distinct s0 \<longrightarrow> distinct (foldl (\<lambda>s r. Set_add (Set_add s (f r)) (g r)) s0 uc))"
  by (induction uc arbitrary: s0) (auto simp: set_Set_add distinct_Set_add)

lemma set_uniqueNodeIDs:
  "set (uniqueNodeIDs isSet uc) = spec_tokens (set isSet) uc"
  by (simp add: uniqueNodeIDs_def spec_tokens_def getUniqueNodeID_spec
      conjunct1 [OF uniqueNodeIDs_foldl])

lemma distinct_uniqueNodeIDs: "distinct (uniqueNodeIDs isSet uc)"
  by (simp add: uniqueNodeIDs_def conjunct2 [OF uniqueNodeIDs_foldl])

lemma uniqueResultID_spec:
  "uniqueResultID qNodeIDsWithIsSet ucResult = spec_resultID (set qNodeIDsWithIsSet) ucResult"
  by (simp add: uniqueResultID_def spec_resultID_def sort_distinct distinct_uniqueNodeIDs
      set_uniqueNodeIDs)

lemma collectIsSet_spec:
  "collectIsSet recordsByQEdgeID s = Inr isSet \<Longrightarrow>
   set isSet = set s \<union> spec_isSetNodes recordsByQEdgeID"
proof (induction recordsByQEdgeID s rule: collectIsSet.induct)
  case (1 s)
  then show ?case by (simp add: spec_isSetNodes_def)
next
  case (2 qEdge ed rest s)
  then obtain r0 rs where r: "records ed = r0 # rs"
    by (cases "records ed") auto
  have sp: "spec_isSetNodes ((qEdge, ed) # rest) =
      (if getInputIsSet r0 then {getInputQueryNodeID r0} else {}) \<union>
      (if getOutputIsSet r0 then {getOutputQueryNodeID r0} else {}) \<union> spec_isSetNodes rest"
    by (simp add: spec_isSetNodes_def r)
  from 2(2) r have
    "collectIsSet rest
       (if getOutputIsSet r0
        then Set_add (if getInputIsSet r0 then Set_add s (getInputQueryNodeID r0) else s)
               (getOutputQueryNodeID r0)
        else (if getInputIsSet r0 then Set_add s (getInputQueryNodeID r0) else s)) = Inr isSet"
    by (simp add: Let_def)
  from 2(1) [OF r refl refl this] show ?case
    unfolding sp by (auto simp: set_Set_add split: if_splits)
qed

lemma key_spec:
  "collectIsSet recordsByQEdgeID [] = Inr isSet \<Longrightarrow>
   uniqueResultID isSet = spec_resultID (spec_isSetNodes recordsByQEdgeID)"
  using collectIsSet_spec [of recordsByQEdgeID "[]" isSet]
  by (simp add: fun_eq_iff uniqueResultID_spec)

subsection \<open>Grouping\<close>

lemma map_of_group_push:
  "map_of (group_push obj k u) =
     (map_of obj)(k \<mapsto> (case map_of obj k of None \<Rightarrow> [u] | Some us \<Rightarrow> us @ [u]))"
  by (simp add: group_push_def obj_get_def map_of_obj_set split: option.splits)

lemma keys_group_push:
  "map fst (group_push obj k u) = (if k \<in> fst ` set obj then map fst obj else map fst obj @ [k])"
  by (simp add: group_push_def keys_obj_set split: option.splits)

lemma groups_invariant:
  "distinct (map fst (ucResultsByResultID isSet ucs)) \<and>
   set (map fst (ucResultsByResultID isSet ucs)) = uniqueResultID isSet ` set ucs \<and>
   (\<forall>k. map_of (ucResultsByResultID isSet ucs) k =
      (if k \<in> uniqueResultID isSet ` set ucs
       then Some (filter (\<lambda>u. uniqueResultID isSet u = k) ucs) else None))"
proof (induction ucs rule: rev_induct)
  case Nil
  show ?case by (simp add: ucResultsByResultID_def)
next
  case (snoc u ucs)
  let ?g = "ucResultsByResultID isSet ucs"
  have step: "ucResultsByResultID isSet (ucs @ [u]) = group_push ?g (uniqueResultID isSet u) u"
    by (simp add: ucResultsByResultID_def)
  from snoc have d: "distinct (map fst ?g)"
    and s: "set (map fst ?g) = uniqueResultID isSet ` set ucs"
    and m: "\<And>k. map_of ?g k =
      (if k \<in> uniqueResultID isSet ` set ucs
       then Some (filter (\<lambda>u. uniqueResultID isSet u = k) ucs) else None)"
    by blast+
  have s': "fst ` set ?g = uniqueResultID isSet ` set ucs" using s by simp
  have e: "uniqueResultID isSet u \<notin> uniqueResultID isSet ` set ucs \<Longrightarrow>
      filter (\<lambda>ua. uniqueResultID isSet ua = uniqueResultID isSet u) ucs = []"
  proof (rule filter_False, rule ballI)
    fix x assume "uniqueResultID isSet u \<notin> uniqueResultID isSet ` set ucs" "x \<in> set ucs"
    then show "uniqueResultID isSet x \<noteq> uniqueResultID isSet u"
      by (metis image_eqI)
  qed
  show ?case
    unfolding step
    by (auto simp: keys_group_push map_of_group_push d s' m e)
qed

lemma update_None:
  "update depth recordsByQEdgeID this = (None, this') \<Longrightarrow>
   \<exists>rs. assemble depth recordsByQEdgeID = Inr rs \<and> getResults this' = rs"
  by (auto simp: update_def getResults_def Let_def split: sum.splits)

lemma assemble_Inr:
  "assemble depth recordsByQEdgeID = Inr rs \<Longrightarrow>
   \<exists>isSet ucs cs. collectIsSet recordsByQEdgeID [] = Inr isSet \<and>
     unconsolidatedResults depth recordsByQEdgeID = Inr ucs \<and>
     mapM (\<lambda>(k, us). consolidate us) (ucResultsByResultID isSet ucs) = Inr cs \<and>
     rs = map toResult cs"
  by (auto simp: assemble_def split: sum.splits)

lemma Set_from_snoc: "Set_from (xs @ [x]) = Set_add (Set_from xs) x"
  by (simp add: Set_from_def)

lemma group_keys:
  "map fst (ucResultsByResultID isSet ucs) = Set_from (map (uniqueResultID isSet) ucs)"
proof (induction ucs rule: rev_induct)
  case Nil
  show ?case by (simp add: ucResultsByResultID_def Set_from_def)
next
  case (snoc u ucs)
  have step: "ucResultsByResultID isSet (ucs @ [u]) =
      group_push (ucResultsByResultID isSet ucs) (uniqueResultID isSet u) u"
    by (simp add: ucResultsByResultID_def)
  have "fst ` set (ucResultsByResultID isSet ucs) = set (map fst (ucResultsByResultID isSet ucs))"
    by simp
  then show ?case
    unfolding step by (simp add: keys_group_push Set_from_snoc Set_add_def snoc del: set_map)
qed



text \<open>
  Claim C1. For the preresults that \<open>update\<close> enumerates, the identifier it computes
  is the one the specification describes, where the QNodes marked \<open>is_set\<close> are those
  whose flag \<open>update\<close> reads from the first record of a query edge: the token of a node
  occurrence is the QNode identifier alone for a marked node and the identifier, a hyphen
  and the primary curie otherwise; the tokens are collected into a set, sorted and joined
  by \<open>_&_\<close>. These identifiers are the keys under which \<open>update\<close> groups the
  preresults, in the order of their first occurrence, every preresult lies in the group of
  its identifier, and the results of \<open>update\<close> are built from these groups.
\<close>

theorem update_keys_refine_spec:
  assumes "collectIsSet recordsByQEdgeID [] = Inr qNodeIDsWithIsSet"
    and "unconsolidatedResults depth recordsByQEdgeID = Inr ucs"
  shows "set qNodeIDsWithIsSet = spec_isSetNodes recordsByQEdgeID \<and>
    (\<forall>u \<in> set ucs.
       uniqueResultID qNodeIDsWithIsSet u = spec_resultID (spec_isSetNodes recordsByQEdgeID) u) \<and>
    map fst (ucResultsByResultID qNodeIDsWithIsSet ucs) =
      Set_from (map (spec_resultID (spec_isSetNodes recordsByQEdgeID)) ucs) \<and>
    (\<forall>u \<in> set ucs. \<exists>us.
       (spec_resultID (spec_isSetNodes recordsByQEdgeID) u, us)
          \<in> set (ucResultsByResultID qNodeIDsWithIsSet ucs) \<and> u \<in> set us) \<and>
    getResults (snd (update depth recordsByQEdgeID this)) =
      (case mapM (\<lambda>(uniqueResultID, us). consolidate us)
              (ucResultsByResultID qNodeIDsWithIsSet ucs) of
         Inl e \<Rightarrow> []
       | Inr consolidatedResults \<Rightarrow> map toResult consolidatedResults)"
proof -
  let ?M = "spec_isSetNodes recordsByQEdgeID"
  let ?g = "ucResultsByResultID qNodeIDsWithIsSet ucs"
  have M: "set qNodeIDsWithIsSet = ?M" using collectIsSet_spec [OF assms(1)] by simp
  have key: "uniqueResultID qNodeIDsWithIsSet = spec_resultID ?M" by (rule key_spec [OF assms(1)])
  have keys: "map fst ?g = Set_from (map (spec_resultID ?M) ucs)"
    using group_keys [of qNodeIDsWithIsSet ucs] unfolding key .
  note inv = groups_invariant [of qNodeIDsWithIsSet ucs]
  have member: "\<exists>us. (spec_resultID ?M u, us) \<in> set ?g \<and> u \<in> set us" if "u \<in> set ucs" for u
  proof -
    from that inv have "map_of ?g (uniqueResultID qNodeIDsWithIsSet u) =
        Some (filter (\<lambda>v. uniqueResultID qNodeIDsWithIsSet v = uniqueResultID qNodeIDsWithIsSet u) ucs)"
      by auto
    then have "(uniqueResultID qNodeIDsWithIsSet u,
        filter (\<lambda>v. uniqueResultID qNodeIDsWithIsSet v = uniqueResultID qNodeIDsWithIsSet u) ucs)
        \<in> set ?g"
      by (rule map_of_SomeD)
    moreover have "u \<in> set (filter (\<lambda>v. uniqueResultID qNodeIDsWithIsSet v =
        uniqueResultID qNodeIDsWithIsSet u) ucs)"
      using that by simp
    ultimately show ?thesis unfolding key by blast
  qed
  have res: "getResults (snd (update depth recordsByQEdgeID this)) =
      (case mapM (\<lambda>(uniqueResultID, us). consolidate us) ?g of
         Inl e \<Rightarrow> []
       | Inr consolidatedResults \<Rightarrow> map toResult consolidatedResults)"
    using assms by (simp add: update_def assemble_def getResults_def Let_def split: sum.splits)
  from M key keys member res show ?thesis by simp
qed

text \<open>
  Two genes joined through two diseases, with \<open>is_set\<close> on the disease node \<open>n2\<close>:
  both preresults have the identifier \<open>n1-G1_&_n2_&_n3-G2\<close>.
\<close>

theorem update_keys_refine_spec_witness:
  "collectIsSet
     [(''e01'', \<lparr>connected_to = [''e02''], records =
        [\<lparr>getInputQueryNodeID = ''n1'', getOutputQueryNodeID = ''n2'',
          getInputCurie = ''G1'', getOutputCurie = ''D1'',
          getInputIsSet = False, getOutputIsSet = True, getRecordHash = ''h1''\<rparr>,
         \<lparr>getInputQueryNodeID = ''n1'', getOutputQueryNodeID = ''n2'',
          getInputCurie = ''G1'', getOutputCurie = ''D2'',
          getInputIsSet = False, getOutputIsSet = True, getRecordHash = ''h2''\<rparr>]\<rparr>),
      (''e02'', \<lparr>connected_to = [''e01''], records =
        [\<lparr>getInputQueryNodeID = ''n3'', getOutputQueryNodeID = ''n2'',
          getInputCurie = ''G2'', getOutputCurie = ''D1'',
          getInputIsSet = False, getOutputIsSet = True, getRecordHash = ''k1''\<rparr>,
         \<lparr>getInputQueryNodeID = ''n3'', getOutputQueryNodeID = ''n2'',
          getInputCurie = ''G2'', getOutputCurie = ''D2'',
          getInputIsSet = False, getOutputIsSet = True, getRecordHash = ''k2''\<rparr>]\<rparr>)] [] = Inr [''n2''] \<and>
   unconsolidatedResults 3
     [(''e01'', \<lparr>connected_to = [''e02''], records =
        [\<lparr>getInputQueryNodeID = ''n1'', getOutputQueryNodeID = ''n2'',
          getInputCurie = ''G1'', getOutputCurie = ''D1'',
          getInputIsSet = False, getOutputIsSet = True, getRecordHash = ''h1''\<rparr>,
         \<lparr>getInputQueryNodeID = ''n1'', getOutputQueryNodeID = ''n2'',
          getInputCurie = ''G1'', getOutputCurie = ''D2'',
          getInputIsSet = False, getOutputIsSet = True, getRecordHash = ''h2''\<rparr>]\<rparr>),
      (''e02'', \<lparr>connected_to = [''e01''], records =
        [\<lparr>getInputQueryNodeID = ''n3'', getOutputQueryNodeID = ''n2'',
          getInputCurie = ''G2'', getOutputCurie = ''D1'',
          getInputIsSet = False, getOutputIsSet = True, getRecordHash = ''k1''\<rparr>,
         \<lparr>getInputQueryNodeID = ''n3'', getOutputQueryNodeID = ''n2'',
          getInputCurie = ''G2'', getOutputCurie = ''D2'',
          getInputIsSet = False, getOutputIsSet = True, getRecordHash = ''k2''\<rparr>]\<rparr>)] =
     Inr [[\<lparr>inputQNodeID = ''n1'', outputQNodeID = ''n2'',
          inputPrimaryCurie = ''G1'', outputPrimaryCurie = ''D1'',
          qEdgeID = ''e01'', recordHash = ''h1''\<rparr>,
         \<lparr>inputQNodeID = ''n3'', outputQNodeID = ''n2'',
          inputPrimaryCurie = ''G2'', outputPrimaryCurie = ''D1'',
          qEdgeID = ''e02'', recordHash = ''k1''\<rparr>],
        [\<lparr>inputQNodeID = ''n1'', outputQNodeID = ''n2'',
          inputPrimaryCurie = ''G1'', outputPrimaryCurie = ''D2'',
          qEdgeID = ''e01'', recordHash = ''h2''\<rparr>,
         \<lparr>inputQNodeID = ''n3'', outputQNodeID = ''n2'',
          inputPrimaryCurie = ''G2'', outputPrimaryCurie = ''D2'',
          qEdgeID = ''e02'', recordHash = ''k2''\<rparr>]] \<and>
   set [''n2''] = spec_isSetNodes
     [(''e01'', \<lparr>connected_to = [''e02''], records =
        [\<lparr>getInputQueryNodeID = ''n1'', getOutputQueryNodeID = ''n2'',
          getInputCurie = ''G1'', getOutputCurie = ''D1'',
          getInputIsSet = False, getOutputIsSet = True, getRecordHash = ''h1''\<rparr>,
         \<lparr>getInputQueryNodeID = ''n1'', getOutputQueryNodeID = ''n2'',
          getInputCurie = ''G1'', getOutputCurie = ''D2'',
          getInputIsSet = False, getOutputIsSet = True, getRecordHash = ''h2''\<rparr>]\<rparr>),
      (''e02'', \<lparr>connected_to = [''e01''], records =
        [\<lparr>getInputQueryNodeID = ''n3'', getOutputQueryNodeID = ''n2'',
          getInputCurie = ''G2'', getOutputCurie = ''D1'',
          getInputIsSet = False, getOutputIsSet = True, getRecordHash = ''k1''\<rparr>,
         \<lparr>getInputQueryNodeID = ''n3'', getOutputQueryNodeID = ''n2'',
          getInputCurie = ''G2'', getOutputCurie = ''D2'',
          getInputIsSet = False, getOutputIsSet = True, getRecordHash = ''k2''\<rparr>]\<rparr>)] \<and>
   map fst (ucResultsByResultID [''n2'']
        [[\<lparr>inputQNodeID = ''n1'', outputQNodeID = ''n2'',
          inputPrimaryCurie = ''G1'', outputPrimaryCurie = ''D1'',
          qEdgeID = ''e01'', recordHash = ''h1''\<rparr>,
         \<lparr>inputQNodeID = ''n3'', outputQNodeID = ''n2'',
          inputPrimaryCurie = ''G2'', outputPrimaryCurie = ''D1'',
          qEdgeID = ''e02'', recordHash = ''k1''\<rparr>],
        [\<lparr>inputQNodeID = ''n1'', outputQNodeID = ''n2'',
          inputPrimaryCurie = ''G1'', outputPrimaryCurie = ''D2'',
          qEdgeID = ''e01'', recordHash = ''h2''\<rparr>,
         \<lparr>inputQNodeID = ''n3'', outputQNodeID = ''n2'',
          inputPrimaryCurie = ''G2'', outputPrimaryCurie = ''D2'',
          qEdgeID = ''e02'', recordHash = ''k2''\<rparr>]]) =
     Set_from (map (spec_resultID (spec_isSetNodes
     [(''e01'', \<lparr>connected_to = [''e02''], records =
        [\<lparr>getInputQueryNodeID = ''n1'', getOutputQueryNodeID = ''n2'',
          getInputCurie = ''G1'', getOutputCurie = ''D1'',
          getInputIsSet = False, getOutputIsSet = True, getRecordHash = ''h1''\<rparr>,
         \<lparr>getInputQueryNodeID = ''n1'', getOutputQueryNodeID = ''n2'',
          getInputCurie = ''G1'', getOutputCurie = ''D2'',
          getInputIsSet = False, getOutputIsSet = True, getRecordHash = ''h2''\<rparr>]\<rparr>),
      (''e02'', \<lparr>connected_to = [''e01''], records =
        [\<lparr>getInputQueryNodeID = ''n3'', getOutputQueryNodeID = ''n2'',
          getInputCurie = ''G2'', getOutputCurie = ''D1'',
          getInputIsSet = False, getOutputIsSet = True, getRecordHash = ''k1''\<rparr>,
         \<lparr>getInputQueryNodeID = ''n3'', getOutputQueryNodeID = ''n2'',
          getInputCurie = ''G2'', getOutputCurie = ''D2'',
          getInputIsSet = False, getOutputIsSet = True, getRecordHash = ''k2''\<rparr>]\<rparr>)]))
        [[\<lparr>inputQNodeID = ''n1'', outputQNodeID = ''n2'',
          inputPrimaryCurie = ''G1'', outputPrimaryCurie = ''D1'',
          qEdgeID = ''e01'', recordHash = ''h1''\<rparr>,
         \<lparr>inputQNodeID = ''n3'', outputQNodeID = ''n2'',
          inputPrimaryCurie = ''G2'', outputPrimaryCurie = ''D1'',
          qEdgeID = ''e02'', recordHash = ''k1''\<rparr>],
        [\<lparr>inputQNodeID = ''n1'', outputQNodeID = ''n2'',
          inputPrimaryCurie = ''G1'', outputPrimaryCurie = ''D2'',
          qEdgeID = ''e01'', recordHash = ''h2''\<rparr>,
         \<lparr>inputQNodeID = ''n3'', outputQNodeID = ''n2'',
          inputPrimaryCurie = ''G2'', outputPrimaryCurie = ''D2'',
          qEdgeID = ''e02'', recordHash = ''k2''\<rparr>]]) \<and>
   map fst (ucResultsByResultID [''n2'']
        [[\<lparr>inputQNodeID = ''n1'', outputQNodeID = ''n2'',
          inputPrimaryCurie = ''G1'', outputPrimaryCurie = ''D1'',
          qEdgeID = ''e01'', recordHash = ''h1''\<rparr>,
         \<lparr>inputQNodeID = ''n3'', outputQNodeID = ''n2'',
          inputPrimaryCurie = ''G2'', outputPrimaryCurie = ''D1'',
          qEdgeID = ''e02'', recordHash = ''k1''\<rparr>],
        [\<lparr>inputQNodeID = ''n1'', outputQNodeID = ''n2'',
          inputPrimaryCurie = ''G1'', outputPrimaryCurie = ''D2'',
          qEdgeID = ''e01'', recordHash = ''h2''\<rparr>,
         \<lparr>inputQNodeID = ''n3'', outputQNodeID = ''n2'',
          inputPrimaryCurie = ''G2'', outputPrimaryCurie = ''D2'',
          qEdgeID = ''e02'', recordHash = ''k2''\<rparr>]]) = [''n1-G1_&_n2_&_n3-G2'']"
proof -
  let ?data = "[(''e01'', \<lparr>connected_to = [''e02''], records =
        [\<lparr>getInputQueryNodeID = ''n1'', getOutputQueryNodeID = ''n2'',
          getInputCurie = ''G1'', getOutputCurie = ''D1'',
          getInputIsSet = False, getOutputIsSet = True, getRecordHash = ''h1''\<rparr>,
         \<lparr>getInputQueryNodeID = ''n1'', getOutputQueryNodeID = ''n2'',
          getInputCurie = ''G1'', getOutputCurie = ''D2'',
          getInputIsSet = False, getOutputIsSet = True, getRecordHash = ''h2''\<rparr>]\<rparr>),
      (''e02'', \<lparr>connected_to = [''e01''], records =
        [\<lparr>getInputQueryNodeID = ''n3'', getOutputQueryNodeID = ''n2'',
          getInputCurie = ''G2'', getOutputCurie = ''D1'',
          getInputIsSet = False, getOutputIsSet = True, getRecordHash = ''k1''\<rparr>,
         \<lparr>getInputQueryNodeID = ''n3'', getOutputQueryNodeID = ''n2'',
          getInputCurie = ''G2'', getOutputCurie = ''D2'',
          getInputIsSet = False, getOutputIsSet = True, getRecordHash = ''k2''\<rparr>]\<rparr>)]"
  let ?ucs = "[[\<lparr>inputQNodeID = ''n1'', outputQNodeID = ''n2'',
          inputPrimaryCurie = ''G1'', outputPrimaryCurie = ''D1'',
          qEdgeID = ''e01'', recordHash = ''h1''\<rparr>,
         \<lparr>inputQNodeID = ''n3'', outputQNodeID = ''n2'',
          inputPrimaryCurie = ''G2'', outputPrimaryCurie = ''D1'',
          qEdgeID = ''e02'', recordHash = ''k1''\<rparr>],
        [\<lparr>inputQNodeID = ''n1'', outputQNodeID = ''n2'',
          inputPrimaryCurie = ''G1'', outputPrimaryCurie = ''D2'',
          qEdgeID = ''e01'', recordHash = ''h2''\<rparr>,
         \<lparr>inputQNodeID = ''n3'', outputQNodeID = ''n2'',
          inputPrimaryCurie = ''G2'', outputPrimaryCurie = ''D2'',
          qEdgeID = ''e02'', recordHash = ''k2''\<rparr>]]"
  have h1: "collectIsSet ?data [] = Inr [''n2'']"
    by code_simp
  have h2: "unconsolidatedResults 3 ?data = Inr ?ucs"
    by code_simp
  have k: "map fst (ucResultsByResultID [''n2''] ?ucs) = [''n1-G1_&_n2_&_n3-G2'']"
    by code_simp
  note t = update_keys_refine_spec [OF h1 h2, of newQueryResult]
  from h1 h2 t [THEN conjunct1] t [THEN conjunct2, THEN conjunct2, THEN conjunct1] k
  show ?thesis by (intro conjI)
qed


subsection \<open>Merging\<close>

lemma group_nonempty:
  "(k, us) \<in> set (ucResultsByResultID isSet ucs) \<Longrightarrow> us \<noteq> []"
proof -
  assume a: "(k, us) \<in> set (ucResultsByResultID isSet ucs)"
  note inv = groups_invariant [of isSet ucs]
  from inv have d: "distinct (map fst (ucResultsByResultID isSet ucs))" by blast
  from a d have m: "map_of (ucResultsByResultID isSet ucs) k = Some us" by simp
  with inv have k: "k \<in> uniqueResultID isSet ` set ucs"
    and us: "us = filter (\<lambda>u. uniqueResultID isSet u = k) ucs"
    by (auto split: if_splits)
  from k obtain u where "u \<in> set ucs" "uniqueResultID isSet u = k" by auto
  then have "u \<in> set us" unfolding us by simp
  then show ?thesis by auto
qed

lemma mapM_map:
  "\<forall>x \<in> set xs. f x = Inr (g x) \<Longrightarrow> mapM f xs = Inr (map g xs)"
  by (induction xs) auto

lemma mapM_map_arg: "mapM f (map h xs) = mapM (\<lambda>x. f (h x)) xs"
  by (induction xs) (auto split: sum.splits)

lemma zipAll_Inr:
  assumes "zipAll us = Inr cols" and "us \<noteq> []"
  shows "(\<forall>u \<in> set us. length u = length (hd us)) \<and>
     cols = map (\<lambda>i. map (\<lambda>v. v ! i) us) [0 ..< length (hd us)]"
  using assms by (cases us) (auto simp: zipAll_def split: if_splits)

lemma consolidateColumn_column:
  "us \<noteq> [] \<Longrightarrow> consolidateColumn (map (\<lambda>v. v ! i) us) = Inr (columnOf us i)"
  by (cases us) (simp_all add: consolidateColumn_def columnOf_def comp_def)

lemma consolidate_Inr:
  assumes "consolidate us = Inr cs" and "us \<noteq> []"
  shows "(\<forall>u \<in> set us. length u = length (hd us)) \<and>
     cs = map (columnOf us) [0 ..< length (hd us)]"
proof -
  from assms(1) obtain cols where z: "zipAll us = Inr cols"
    and m: "mapM consolidateColumn cols = Inr cs"
    by (auto simp: consolidate_def split: sum.splits)
  note zi = zipAll_Inr [OF z assms(2)]
  have "mapM (\<lambda>i. consolidateColumn (map (\<lambda>v. v ! i) us)) [0 ..< length (hd us)] =
      Inr (map (columnOf us) [0 ..< length (hd us)])"
    by (rule mapM_map) (simp add: consolidateColumn_column [OF assms(2)])
  then have "mapM consolidateColumn cols = Inr (map (columnOf us) [0 ..< length (hd us)])"
    using zi by (simp add: mapM_map_arg)
  with m zi show ?thesis by simp
qed

lemma map_of_append_cong:
  "map_of ys = map_of zs \<Longrightarrow> map_of (xs @ ys) = map_of (xs @ zs)"
  by (simp add: map_of_append)

lemma node_bindings_addBindings:
  "map_of (node_bindings (addBindings r c)) =
   map_of ([(c_outputQNodeID c, map Binding (outputPrimaryCuries c)),
            (c_inputQNodeID c, map Binding (inputPrimaryCuries c))] @ node_bindings r)"
  by (auto simp: addBindings_def Let_def map_of_obj_set fun_eq_iff)

lemma edge_bindings_addBindings:
  "map_of (edge_bindings (addBindings r c)) =
   map_of ((c_qEdgeID c, map Binding (recordHashes c)) # edge_bindings r)"
  by (auto simp: addBindings_def Let_def map_of_obj_set fun_eq_iff)

lemma score_addBindings: "score (foldl addBindings r cs) = score r"
  by (induction cs arbitrary: r) (simp_all add: addBindings_def Let_def)

lemma node_bindings_writes:
  "map_of (node_bindings (foldl addBindings r cs)) =
   map_of (rev (concat (map (\<lambda>c. [(c_inputQNodeID c, map Binding (inputPrimaryCuries c)),
                                   (c_outputQNodeID c, map Binding (outputPrimaryCuries c))]) cs))
           @ node_bindings r)"
proof (induction cs arbitrary: r)
  case Nil
  show ?case by simp
next
  case (Cons c cs)
  show ?case
    using map_of_append_cong [OF node_bindings_addBindings [of r c]]
    by (simp add: Cons)
qed

lemma edge_bindings_writes:
  "map_of (edge_bindings (foldl addBindings r cs)) =
   map_of (rev (map (\<lambda>c. (c_qEdgeID c, map Binding (recordHashes c))) cs) @ edge_bindings r)"
proof (induction cs arbitrary: r)
  case Nil
  show ?case by simp
next
  case (Cons c cs)
  show ?case
    using map_of_append_cong [OF edge_bindings_addBindings [of r c]]
    by (simp add: Cons)
qed

lemma toResult_merged:
  assumes "consolidate us = Inr cs" and "us \<noteq> []"
  shows "(\<forall>u \<in> set us. length u = length (hd us)) \<and>
     map_of (node_bindings (toResult cs)) = map_of (rev (nodeWrites us)) \<and>
     map_of (edge_bindings (toResult cs)) = map_of (rev (edgeWrites us)) \<and>
     score (toResult cs) = 1"
proof -
  note c = consolidate_Inr [OF assms]
  have cs: "cs = map (columnOf us) [0 ..< length (hd us)]" using c by simp
  have n: "concat (map (\<lambda>c. [(c_inputQNodeID c, map Binding (inputPrimaryCuries c)),
                              (c_outputQNodeID c, map Binding (outputPrimaryCuries c))]) cs) =
      nodeWrites us"
    by (simp add: cs nodeWrites_def merged_def columnOf_def comp_def)
  have e: "map (\<lambda>c. (c_qEdgeID c, map Binding (recordHashes c))) cs = edgeWrites us"
    by (simp add: cs edgeWrites_def merged_def columnOf_def comp_def)
  let ?r0 = "\<lparr>node_bindings = [], edge_bindings = [], score = 1\<rparr>"
  have "map_of (node_bindings (toResult cs)) = map_of (rev (nodeWrites us))"
    unfolding toResult_def node_bindings_writes [of ?r0 cs] n by simp
  moreover have "map_of (edge_bindings (toResult cs)) = map_of (rev (edgeWrites us))"
    unfolding toResult_def edge_bindings_writes [of ?r0 cs] e by simp
  moreover have "score (toResult cs) = 1"
    by (simp add: toResult_def score_addBindings)
  ultimately show ?thesis using c by simp
qed

lemma results_merged:
  assumes "mapM (\<lambda>(k, us). consolidate us) g = Inr cs"
    and "\<forall>(k, us) \<in> set g. us \<noteq> []"
  shows "list_all2 (\<lambda>(k, us) r. mergedInto us r) g (map toResult cs)"
  using assms
proof (induction g arbitrary: cs)
  case Nil
  then show ?case by simp
next
  case (Cons p g)
  obtain k us where p: "p = (k, us)" by (cases p)
  from Cons.prems(1) p have e: "(case consolidate us of Inl e \<Rightarrow> Inl e
      | Inr y \<Rightarrow> (case mapM (\<lambda>(k, us). consolidate us) g of Inl e \<Rightarrow> Inl e
                   | Inr ys \<Rightarrow> Inr (y # ys))) = Inr cs"
    by simp
  then obtain c where c: "consolidate us = Inr c"
    by (cases "consolidate us") simp_all
  with e obtain cs' where m: "mapM (\<lambda>(k, us). consolidate us) g = Inr cs'"
    by (cases "mapM (\<lambda>(k, us). consolidate us) g") simp_all
  from e c m have cs: "cs = c # cs'" by simp
  from Cons.prems(2) p have ne: "us \<noteq> []" by simp
  have "mergedInto us (toResult c)"
    unfolding mergedInto_def by (rule conjI [OF ne toResult_merged [OF c ne]])
  moreover have "list_all2 (\<lambda>(k, us) r. mergedInto us r) g (map toResult cs')"
    using Cons.IH [OF m] Cons.prems(2) by simp
  ultimately show ?case by (simp add: p cs)
qed


text \<open>
  Claim C2. When \<open>update\<close> returns, the groups it has formed have pairwise distinct
  identifiers; a group holds exactly the enumerated preresults with its identifier, so two
  preresults with the same identifier are in one group and two with different identifiers
  never are; the emitted results correspond to the groups one to one and in order, and
  the result of a group binds exactly what all members of that group contribute, position
  by position; hence the number of emitted results is the number of distinct identifiers
  over the enumerated preresults. The identifiers are those of the specification, with
  the QNodes marked \<open>is_set\<close> read from the records.
\<close>

theorem consolidation_law:
  assumes "update depth recordsByQEdgeID this = (None, this')"
  shows "\<exists>qNodeIDsWithIsSet ucs.
    collectIsSet recordsByQEdgeID [] = Inr qNodeIDsWithIsSet \<and>
    set qNodeIDsWithIsSet = spec_isSetNodes recordsByQEdgeID \<and>
    unconsolidatedResults depth recordsByQEdgeID = Inr ucs \<and>
    distinct (map fst (ucResultsByResultID qNodeIDsWithIsSet ucs)) \<and>
    (\<forall>k us. (k, us) \<in> set (ucResultsByResultID qNodeIDsWithIsSet ucs) \<longleftrightarrow>
       k \<in> spec_resultID (spec_isSetNodes recordsByQEdgeID) ` set ucs \<and>
       us = filter (\<lambda>u. spec_resultID (spec_isSetNodes recordsByQEdgeID) u = k) ucs) \<and>
    list_all2 (\<lambda>(k, us) r. mergedInto us r)
       (ucResultsByResultID qNodeIDsWithIsSet ucs) (getResults this') \<and>
    length (getResults this') =
      card (spec_resultID (spec_isSetNodes recordsByQEdgeID) ` set ucs)"
proof -
  from update_None [OF assms] obtain rs where
    a: "assemble depth recordsByQEdgeID = Inr rs" and g: "getResults this' = rs" by blast
  from assemble_Inr [OF a] obtain isSet ucs cs where
    i: "collectIsSet recordsByQEdgeID [] = Inr isSet" and
    u: "unconsolidatedResults depth recordsByQEdgeID = Inr ucs" and
    c: "mapM (\<lambda>(k, us). consolidate us) (ucResultsByResultID isSet ucs) = Inr cs" and
    r: "rs = map toResult cs" by blast
  let ?g = "ucResultsByResultID isSet ucs"
  let ?M = "spec_isSetNodes recordsByQEdgeID"
  have M: "set isSet = ?M" using collectIsSet_spec [OF i] by simp
  have key: "uniqueResultID isSet = spec_resultID ?M" by (rule key_spec [OF i])
  note inv = groups_invariant [of isSet ucs]
  have d: "distinct (map fst ?g)" using inv by blast
  have mem: "\<And>k us. (k, us) \<in> set ?g \<longleftrightarrow>
       k \<in> spec_resultID ?M ` set ucs \<and> us = filter (\<lambda>u. spec_resultID ?M u = k) ucs"
  proof -
    fix k us
    have "(k, us) \<in> set ?g \<longleftrightarrow> map_of ?g k = Some us"
      using d by simp
    also have "\<dots> \<longleftrightarrow> k \<in> uniqueResultID isSet ` set ucs \<and>
        us = filter (\<lambda>u. uniqueResultID isSet u = k) ucs"
      using inv by auto
    finally show "(k, us) \<in> set ?g \<longleftrightarrow>
       k \<in> spec_resultID ?M ` set ucs \<and> us = filter (\<lambda>u. spec_resultID ?M u = k) ucs"
      unfolding key .
  qed
  have ne: "\<forall>(k, us) \<in> set ?g. us \<noteq> []"
    using group_nonempty by blast
  have l3: "list_all2 (\<lambda>(k, us) r. mergedInto us r) ?g rs"
    unfolding r by (rule results_merged [OF c ne])
  have "length rs = length (map fst ?g)"
    using list_all2_lengthD [OF l3] by simp
  also have "\<dots> = card (set (map fst ?g))"
    using distinct_card [OF d] by simp
  also have "\<dots> = card (spec_resultID ?M ` set ucs)"
    using inv unfolding key by simp
  finally have len: "length rs = card (spec_resultID ?M ` set ucs)" .
  have "collectIsSet recordsByQEdgeID [] = Inr isSet \<and>
    set isSet = ?M \<and>
    unconsolidatedResults depth recordsByQEdgeID = Inr ucs \<and>
    distinct (map fst ?g) \<and>
    (\<forall>k us. (k, us) \<in> set ?g \<longleftrightarrow>
       k \<in> spec_resultID ?M ` set ucs \<and> us = filter (\<lambda>u. spec_resultID ?M u = k) ucs) \<and>
    list_all2 (\<lambda>(k, us) r. mergedInto us r) ?g (getResults this') \<and>
    length (getResults this') = card (spec_resultID ?M ` set ucs)"
    unfolding g using i M u d mem l3 len by (intro conjI allI)
  then show ?thesis by (intro exI)
qed

text \<open>
  The law where two preresults meet: two genes joined through two diseases, with
  \<open>is_set\<close> on the disease node. The two preresults have one identifier and are
  merged into the one result, which binds both diseases and all four record hashes.
\<close>

theorem consolidation_law_witness:
  "update 3
     [(''e01'', \<lparr>connected_to = [''e02''], records =
        [\<lparr>getInputQueryNodeID = ''n1'', getOutputQueryNodeID = ''n2'',
          getInputCurie = ''G1'', getOutputCurie = ''D1'',
          getInputIsSet = False, getOutputIsSet = True, getRecordHash = ''h1''\<rparr>,
         \<lparr>getInputQueryNodeID = ''n1'', getOutputQueryNodeID = ''n2'',
          getInputCurie = ''G1'', getOutputCurie = ''D2'',
          getInputIsSet = False, getOutputIsSet = True, getRecordHash = ''h2''\<rparr>]\<rparr>),
      (''e02'', \<lparr>connected_to = [''e01''], records =
        [\<lparr>getInputQueryNodeID = ''n3'', getOutputQueryNodeID = ''n2'',
          getInputCurie = ''G2'', getOutputCurie = ''D1'',
          getInputIsSet = False, getOutputIsSet = True, getRecordHash = ''k1''\<rparr>,
         \<lparr>getInputQueryNodeID = ''n3'', getOutputQueryNodeID = ''n2'',
          getInputCurie = ''G2'', getOutputCurie = ''D2'',
          getInputIsSet = False, getOutputIsSet = True, getRecordHash = ''k2''\<rparr>]\<rparr>)]
     newQueryResult =
   (None, \<lparr>results_field =
      [\<lparr>node_bindings = [(''n1'', [Binding ''G1'']), (''n2'', [Binding ''D1'', Binding ''D2'']),
                         (''n3'', [Binding ''G2''])],
        edge_bindings = [(''e01'', [Binding ''h1'', Binding ''h2'']),
                         (''e02'', [Binding ''k1'', Binding ''k2''])], score = 1\<rparr>]\<rparr>) \<and>
   (\<exists>qNodeIDsWithIsSet ucs.
    collectIsSet 
     [(''e01'', \<lparr>connected_to = [''e02''], records =
        [\<lparr>getInputQueryNodeID = ''n1'', getOutputQueryNodeID = ''n2'',
          getInputCurie = ''G1'', getOutputCurie = ''D1'',
          getInputIsSet = False, getOutputIsSet = True, getRecordHash = ''h1''\<rparr>,
         \<lparr>getInputQueryNodeID = ''n1'', getOutputQueryNodeID = ''n2'',
          getInputCurie = ''G1'', getOutputCurie = ''D2'',
          getInputIsSet = False, getOutputIsSet = True, getRecordHash = ''h2''\<rparr>]\<rparr>),
      (''e02'', \<lparr>connected_to = [''e01''], records =
        [\<lparr>getInputQueryNodeID = ''n3'', getOutputQueryNodeID = ''n2'',
          getInputCurie = ''G2'', getOutputCurie = ''D1'',
          getInputIsSet = False, getOutputIsSet = True, getRecordHash = ''k1''\<rparr>,
         \<lparr>getInputQueryNodeID = ''n3'', getOutputQueryNodeID = ''n2'',
          getInputCurie = ''G2'', getOutputCurie = ''D2'',
          getInputIsSet = False, getOutputIsSet = True, getRecordHash = ''k2''\<rparr>]\<rparr>)] [] = Inr qNodeIDsWithIsSet \<and>
    set qNodeIDsWithIsSet = spec_isSetNodes 
     [(''e01'', \<lparr>connected_to = [''e02''], records =
        [\<lparr>getInputQueryNodeID = ''n1'', getOutputQueryNodeID = ''n2'',
          getInputCurie = ''G1'', getOutputCurie = ''D1'',
          getInputIsSet = False, getOutputIsSet = True, getRecordHash = ''h1''\<rparr>,
         \<lparr>getInputQueryNodeID = ''n1'', getOutputQueryNodeID = ''n2'',
          getInputCurie = ''G1'', getOutputCurie = ''D2'',
          getInputIsSet = False, getOutputIsSet = True, getRecordHash = ''h2''\<rparr>]\<rparr>),
      (''e02'', \<lparr>connected_to = [''e01''], records =
        [\<lparr>getInputQueryNodeID = ''n3'', getOutputQueryNodeID = ''n2'',
          getInputCurie = ''G2'', getOutputCurie = ''D1'',
          getInputIsSet = False, getOutputIsSet = True, getRecordHash = ''k1''\<rparr>,
         \<lparr>getInputQueryNodeID = ''n3'', getOutputQueryNodeID = ''n2'',
          getInputCurie = ''G2'', getOutputCurie = ''D2'',
          getInputIsSet = False, getOutputIsSet = True, getRecordHash = ''k2''\<rparr>]\<rparr>)] \<and>
    unconsolidatedResults 3 
     [(''e01'', \<lparr>connected_to = [''e02''], records =
        [\<lparr>getInputQueryNodeID = ''n1'', getOutputQueryNodeID = ''n2'',
          getInputCurie = ''G1'', getOutputCurie = ''D1'',
          getInputIsSet = False, getOutputIsSet = True, getRecordHash = ''h1''\<rparr>,
         \<lparr>getInputQueryNodeID = ''n1'', getOutputQueryNodeID = ''n2'',
          getInputCurie = ''G1'', getOutputCurie = ''D2'',
          getInputIsSet = False, getOutputIsSet = True, getRecordHash = ''h2''\<rparr>]\<rparr>),
      (''e02'', \<lparr>connected_to = [''e01''], records =
        [\<lparr>getInputQueryNodeID = ''n3'', getOutputQueryNodeID = ''n2'',
          getInputCurie = ''G2'', getOutputCurie = ''D1'',
          getInputIsSet = False, getOutputIsSet = True, getRecordHash = ''k1''\<rparr>,
         \<lparr>getInputQueryNodeID = ''n3'', getOutputQueryNodeID = ''n2'',
          getInputCurie = ''G2'', getOutputCurie = ''D2'',
          getInputIsSet = False, getOutputIsSet = True, getRecordHash = ''k2''\<rparr>]\<rparr>)] = Inr ucs \<and>
    distinct (map fst (ucResultsByResultID qNodeIDsWithIsSet ucs)) \<and>
    (\<forall>k us. (k, us) \<in> set (ucResultsByResultID qNodeIDsWithIsSet ucs) \<longleftrightarrow>
       k \<in> spec_resultID (spec_isSetNodes 
     [(''e01'', \<lparr>connected_to = [''e02''], records =
        [\<lparr>getInputQueryNodeID = ''n1'', getOutputQueryNodeID = ''n2'',
          getInputCurie = ''G1'', getOutputCurie = ''D1'',
          getInputIsSet = False, getOutputIsSet = True, getRecordHash = ''h1''\<rparr>,
         \<lparr>getInputQueryNodeID = ''n1'', getOutputQueryNodeID = ''n2'',
          getInputCurie = ''G1'', getOutputCurie = ''D2'',
          getInputIsSet = False, getOutputIsSet = True, getRecordHash = ''h2''\<rparr>]\<rparr>),
      (''e02'', \<lparr>connected_to = [''e01''], records =
        [\<lparr>getInputQueryNodeID = ''n3'', getOutputQueryNodeID = ''n2'',
          getInputCurie = ''G2'', getOutputCurie = ''D1'',
          getInputIsSet = False, getOutputIsSet = True, getRecordHash = ''k1''\<rparr>,
         \<lparr>getInputQueryNodeID = ''n3'', getOutputQueryNodeID = ''n2'',
          getInputCurie = ''G2'', getOutputCurie = ''D2'',
          getInputIsSet = False, getOutputIsSet = True, getRecordHash = ''k2''\<rparr>]\<rparr>)]) ` set ucs \<and>
       us = filter (\<lambda>u. spec_resultID (spec_isSetNodes 
     [(''e01'', \<lparr>connected_to = [''e02''], records =
        [\<lparr>getInputQueryNodeID = ''n1'', getOutputQueryNodeID = ''n2'',
          getInputCurie = ''G1'', getOutputCurie = ''D1'',
          getInputIsSet = False, getOutputIsSet = True, getRecordHash = ''h1''\<rparr>,
         \<lparr>getInputQueryNodeID = ''n1'', getOutputQueryNodeID = ''n2'',
          getInputCurie = ''G1'', getOutputCurie = ''D2'',
          getInputIsSet = False, getOutputIsSet = True, getRecordHash = ''h2''\<rparr>]\<rparr>),
      (''e02'', \<lparr>connected_to = [''e01''], records =
        [\<lparr>getInputQueryNodeID = ''n3'', getOutputQueryNodeID = ''n2'',
          getInputCurie = ''G2'', getOutputCurie = ''D1'',
          getInputIsSet = False, getOutputIsSet = True, getRecordHash = ''k1''\<rparr>,
         \<lparr>getInputQueryNodeID = ''n3'', getOutputQueryNodeID = ''n2'',
          getInputCurie = ''G2'', getOutputCurie = ''D2'',
          getInputIsSet = False, getOutputIsSet = True, getRecordHash = ''k2''\<rparr>]\<rparr>)]) u = k) ucs) \<and>
    list_all2 (\<lambda>(k, us) r. mergedInto us r)
       (ucResultsByResultID qNodeIDsWithIsSet ucs) (getResults 
      \<lparr>results_field =
      [\<lparr>node_bindings = [(''n1'', [Binding ''G1'']), (''n2'', [Binding ''D1'', Binding ''D2'']),
                         (''n3'', [Binding ''G2''])],
        edge_bindings = [(''e01'', [Binding ''h1'', Binding ''h2'']),
                         (''e02'', [Binding ''k1'', Binding ''k2''])], score = 1\<rparr>]\<rparr>) \<and>
    length (getResults 
      \<lparr>results_field =
      [\<lparr>node_bindings = [(''n1'', [Binding ''G1'']), (''n2'', [Binding ''D1'', Binding ''D2'']),
                         (''n3'', [Binding ''G2''])],
        edge_bindings = [(''e01'', [Binding ''h1'', Binding ''h2'']),
                         (''e02'', [Binding ''k1'', Binding ''k2''])], score = 1\<rparr>]\<rparr>) =
      card (spec_resultID (spec_isSetNodes 
     [(''e01'', \<lparr>connected_to = [''e02''], records =
        [\<lparr>getInputQueryNodeID = ''n1'', getOutputQueryNodeID = ''n2'',
          getInputCurie = ''G1'', getOutputCurie = ''D1'',
          getInputIsSet = False, getOutputIsSet = True, getRecordHash = ''h1''\<rparr>,
         \<lparr>getInputQueryNodeID = ''n1'', getOutputQueryNodeID = ''n2'',
          getInputCurie = ''G1'', getOutputCurie = ''D2'',
          getInputIsSet = False, getOutputIsSet = True, getRecordHash = ''h2''\<rparr>]\<rparr>),
      (''e02'', \<lparr>connected_to = [''e01''], records =
        [\<lparr>getInputQueryNodeID = ''n3'', getOutputQueryNodeID = ''n2'',
          getInputCurie = ''G2'', getOutputCurie = ''D1'',
          getInputIsSet = False, getOutputIsSet = True, getRecordHash = ''k1''\<rparr>,
         \<lparr>getInputQueryNodeID = ''n3'', getOutputQueryNodeID = ''n2'',
          getInputCurie = ''G2'', getOutputCurie = ''D2'',
          getInputIsSet = False, getOutputIsSet = True, getRecordHash = ''k2''\<rparr>]\<rparr>)]) ` set ucs))"
proof -
  let ?data = "[(''e01'', \<lparr>connected_to = [''e02''], records =
        [\<lparr>getInputQueryNodeID = ''n1'', getOutputQueryNodeID = ''n2'',
          getInputCurie = ''G1'', getOutputCurie = ''D1'',
          getInputIsSet = False, getOutputIsSet = True, getRecordHash = ''h1''\<rparr>,
         \<lparr>getInputQueryNodeID = ''n1'', getOutputQueryNodeID = ''n2'',
          getInputCurie = ''G1'', getOutputCurie = ''D2'',
          getInputIsSet = False, getOutputIsSet = True, getRecordHash = ''h2''\<rparr>]\<rparr>),
      (''e02'', \<lparr>connected_to = [''e01''], records =
        [\<lparr>getInputQueryNodeID = ''n3'', getOutputQueryNodeID = ''n2'',
          getInputCurie = ''G2'', getOutputCurie = ''D1'',
          getInputIsSet = False, getOutputIsSet = True, getRecordHash = ''k1''\<rparr>,
         \<lparr>getInputQueryNodeID = ''n3'', getOutputQueryNodeID = ''n2'',
          getInputCurie = ''G2'', getOutputCurie = ''D2'',
          getInputIsSet = False, getOutputIsSet = True, getRecordHash = ''k2''\<rparr>]\<rparr>)]"
  let ?this' = "\<lparr>results_field =
      [\<lparr>node_bindings = [(''n1'', [Binding ''G1'']), (''n2'', [Binding ''D1'', Binding ''D2'']),
                         (''n3'', [Binding ''G2''])],
        edge_bindings = [(''e01'', [Binding ''h1'', Binding ''h2'']),
                         (''e02'', [Binding ''k1'', Binding ''k2''])], score = 1\<rparr>]\<rparr>"
  have h: "update 3 ?data newQueryResult = (None, ?this')"
    by code_simp
  from h consolidation_law [OF h] show ?thesis
    by (intro conjI)
qed

subsection \<open>Bindings inside a result\<close>

lemma node_bindings_foldl:
  "(q, bs) \<in> set (node_bindings (foldl addBindings r0 cs)) \<Longrightarrow>
   (q, bs) \<in> set (node_bindings r0) \<or>
   (\<exists>c \<in> set cs. bs = map Binding (inputPrimaryCuries c) \<or>
                  bs = map Binding (outputPrimaryCuries c))"
proof (induction cs arbitrary: r0)
  case Nil
  then show ?case by simp
next
  case (Cons c cs)
  from Cons.IH [of "addBindings r0 c"] Cons.prems
  have "(q, bs) \<in> set (node_bindings (addBindings r0 c)) \<or>
    (\<exists>c \<in> set cs. bs = map Binding (inputPrimaryCuries c) \<or>
                   bs = map Binding (outputPrimaryCuries c))"
    by simp
  moreover have "(q, bs) \<in> set (node_bindings (addBindings r0 c)) \<Longrightarrow>
     (q, bs) \<in> set (node_bindings r0) \<or> bs = map Binding (inputPrimaryCuries c) \<or>
     bs = map Binding (outputPrimaryCuries c)"
    by (auto simp: addBindings_def Let_def dest!: set_obj_set)
  ultimately show ?case by auto
qed

lemma edge_bindings_foldl:
  "(q, bs) \<in> set (edge_bindings (foldl addBindings r0 cs)) \<Longrightarrow>
   (q, bs) \<in> set (edge_bindings r0) \<or>
   (\<exists>c \<in> set cs. bs = map Binding (recordHashes c))"
proof (induction cs arbitrary: r0)
  case Nil
  then show ?case by simp
next
  case (Cons c cs)
  from Cons.IH [of "addBindings r0 c"] Cons.prems
  have "(q, bs) \<in> set (edge_bindings (addBindings r0 c)) \<or>
    (\<exists>c \<in> set cs. bs = map Binding (recordHashes c))"
    by simp
  moreover have "(q, bs) \<in> set (edge_bindings (addBindings r0 c)) \<Longrightarrow>
     (q, bs) \<in> set (edge_bindings r0) \<or> bs = map Binding (recordHashes c)"
    by (auto simp: addBindings_def Let_def dest!: set_obj_set)
  ultimately show ?case by auto
qed

lemma zipAll_column:
  assumes "zipAll us = Inr cols" "col \<in> set cols"
  shows "\<exists>i. (\<forall>u \<in> set us. i < length u) \<and> col = map (\<lambda>v. v ! i) us"
proof (cases us)
  case Nil
  with assms show ?thesis by (simp add: zipAll_def)
next
  case (Cons u rest)
  with assms have len: "\<forall>v \<in> set us. length v = length u"
    and cols: "cols = map (\<lambda>i. map (\<lambda>v. v ! i) us) [0 ..< length u]"
    by (auto simp: zipAll_def split: if_splits)
  from cols assms(2) obtain i where "i < length u" "col = map (\<lambda>v. v ! i) us"
    by auto
  with len show ?thesis by auto
qed

lemma consolidate_columns:
  assumes "consolidate us = Inr cs" "c \<in> set cs"
  shows "\<exists>i. (\<forall>u \<in> set us. i < length u) \<and>
     inputPrimaryCuries c = Set_from (map (\<lambda>u. inputPrimaryCurie (u ! i)) us) \<and>
     outputPrimaryCuries c = Set_from (map (\<lambda>u. outputPrimaryCurie (u ! i)) us) \<and>
     recordHashes c = Set_from (map (\<lambda>u. recordHash (u ! i)) us)"
proof -
  from assms(1) obtain cols where z: "zipAll us = Inr cols"
    and m: "mapM consolidateColumn cols = Inr cs"
    by (auto simp: consolidate_def split: sum.splits)
  from mapM_set [OF m assms(2)] obtain col where
    col: "col \<in> set cols" "consolidateColumn col = Inr c" by blast
  from zipAll_column [OF z col(1)] obtain i where
    i: "\<forall>u \<in> set us. i < length u" "col = map (\<lambda>v. v ! i) us" by blast
  from col(2) have
    "inputPrimaryCuries c = Set_from (map inputPrimaryCurie col)"
    "outputPrimaryCuries c = Set_from (map outputPrimaryCurie col)"
    "recordHashes c = Set_from (map recordHash col)"
    by (auto simp: consolidateColumn_def split: list.splits)
  with i show ?thesis by (auto simp: comp_def)
qed

lemma distinct_map_Binding: "distinct (map Binding xs) = distinct xs"
  by (simp add: distinct_map inj_on_def)

lemma result_from_group:
  assumes "update depth recordsByQEdgeID this = (None, this')" "r \<in> set (getResults this')"
  shows "\<exists>qNodeIDsWithIsSet ucs k us cs.
    collectIsSet recordsByQEdgeID [] = Inr qNodeIDsWithIsSet \<and>
    unconsolidatedResults depth recordsByQEdgeID = Inr ucs \<and>
    (k, us) \<in> set (ucResultsByResultID qNodeIDsWithIsSet ucs) \<and>
    consolidate us = Inr cs \<and> r = toResult cs"
proof -
  from update_None [OF assms(1)] assms(2) obtain rs where
    a: "assemble depth recordsByQEdgeID = Inr rs" and g: "r \<in> set rs" by blast
  from assemble_Inr [OF a] obtain isSet ucs css where
    i: "collectIsSet recordsByQEdgeID [] = Inr isSet" and
    u: "unconsolidatedResults depth recordsByQEdgeID = Inr ucs" and
    c: "mapM (\<lambda>(k, us). consolidate us) (ucResultsByResultID isSet ucs) = Inr css" and
    r: "rs = map toResult css" by blast
  from g r obtain cs where cs: "cs \<in> set css" "r = toResult cs" by auto
  from mapM_set [OF c cs(1)] obtain k us where
    "(k, us) \<in> set (ucResultsByResultID isSet ucs)" "consolidate us = Inr cs" by auto
  with i u cs(2) show ?thesis by blast
qed

text \<open>
  Claim C8, as stated, fails: the bindings are in the insertion order of the sets they are
  read from, and nothing sorts them. One query edge from \<open>n0\<close> to \<open>n1\<close>, with
  \<open>is_set\<close> on \<open>n1\<close>, and the two records \<open>A\<close> to \<open>Z\<close> (hash \<open>h2\<close>) and \<open>A\<close>
  to \<open>B\<close> (hash \<open>h1\<close>) give one result whose bindings for \<open>n1\<close> are \<open>Z, B\<close> and
  whose bindings for the edge are \<open>h2, h1\<close>; neither list is sorted.
\<close>

theorem bindings_sorted_counterexample:
  "getResults (snd (update 1
     [(''e0'', \<lparr>connected_to = [], records =
        [\<lparr>getInputQueryNodeID = ''n0'', getOutputQueryNodeID = ''n1'',
          getInputCurie = ''A'', getOutputCurie = ''Z'',
          getInputIsSet = False, getOutputIsSet = True, getRecordHash = ''h2''\<rparr>,
         \<lparr>getInputQueryNodeID = ''n0'', getOutputQueryNodeID = ''n1'',
          getInputCurie = ''A'', getOutputCurie = ''B'',
          getInputIsSet = False, getOutputIsSet = True, getRecordHash = ''h1''\<rparr>]\<rparr>)]
     newQueryResult)) =
   [\<lparr>node_bindings = [(''n0'', [Binding ''A'']), (''n1'', [Binding ''Z'', Binding ''B''])],
     edge_bindings = [(''e0'', [Binding ''h2'', Binding ''h1''])], score = 1\<rparr>] \<and>
   \<not> sorted (map binding_id [Binding ''Z'', Binding ''B'']) \<and>
   \<not> sorted (map binding_id [Binding ''h2'', Binding ''h1''])"
  by code_simp

text \<open>
  Claim C8, amended. Within every emitted result, every list of node bindings and every
  list of edge bindings is free of duplicates and is the insertion-ordered set of the
  values at one position of the preresults of the result's group: the input curies or the
  output curies for a node, the record hashes for an edge, each in the order of its first
  occurrence among the merged preresults.
\<close>

theorem bindings_in_insertion_order:
  assumes "update depth recordsByQEdgeID this = (None, this')"
    and "r \<in> set (getResults this')"
  shows "\<exists>qNodeIDsWithIsSet ucs k us.
    collectIsSet recordsByQEdgeID [] = Inr qNodeIDsWithIsSet \<and>
    unconsolidatedResults depth recordsByQEdgeID = Inr ucs \<and>
    (k, us) \<in> set (ucResultsByResultID qNodeIDsWithIsSet ucs) \<and>
    (\<forall>(q, bs) \<in> set (node_bindings r). distinct bs \<and>
       (\<exists>i. (\<forall>u \<in> set us. i < length u) \<and>
          (bs = map Binding (Set_from (map (\<lambda>u. inputPrimaryCurie (u ! i)) us)) \<or>
           bs = map Binding (Set_from (map (\<lambda>u. outputPrimaryCurie (u ! i)) us))))) \<and>
    (\<forall>(q, bs) \<in> set (edge_bindings r). distinct bs \<and>
       (\<exists>i. (\<forall>u \<in> set us. i < length u) \<and>
          bs = map Binding (Set_from (map (\<lambda>u. recordHash (u ! i)) us))))"
proof -
  from result_from_group [OF assms] obtain isSet ucs k us cs where
    i: "collectIsSet recordsByQEdgeID [] = Inr isSet" and
    u: "unconsolidatedResults depth recordsByQEdgeID = Inr ucs" and
    m: "(k, us) \<in> set (ucResultsByResultID isSet ucs)" and
    c: "consolidate us = Inr cs" and r: "r = toResult cs" by blast
  have n: "distinct bs \<and>
       (\<exists>i. (\<forall>u \<in> set us. i < length u) \<and>
          (bs = map Binding (Set_from (map (\<lambda>u. inputPrimaryCurie (u ! i)) us)) \<or>
           bs = map Binding (Set_from (map (\<lambda>u. outputPrimaryCurie (u ! i)) us))))"
    if "(q, bs) \<in> set (node_bindings r)" for q bs
  proof -
    from that node_bindings_foldl [of q bs _ cs] obtain c' where
      c': "c' \<in> set cs" "bs = map Binding (inputPrimaryCuries c') \<or>
                  bs = map Binding (outputPrimaryCuries c')"
      unfolding r toResult_def by fastforce
    from consolidate_columns [OF c c'(1)] c'(2) show ?thesis
      by (auto simp: distinct_map_Binding distinct_Set_from)
  qed
  have e: "distinct bs \<and>
       (\<exists>i. (\<forall>u \<in> set us. i < length u) \<and>
          bs = map Binding (Set_from (map (\<lambda>u. recordHash (u ! i)) us)))"
    if "(q, bs) \<in> set (edge_bindings r)" for q bs
  proof -
    from that edge_bindings_foldl [of q bs _ cs] obtain c' where
      c': "c' \<in> set cs" "bs = map Binding (recordHashes c')"
      unfolding r toResult_def by fastforce
    from consolidate_columns [OF c c'(1)] c'(2) show ?thesis
      by (auto simp: distinct_map_Binding distinct_Set_from)
  qed
  from i u m n e show ?thesis by blast
qed

text \<open>
  The amended claim at the input of the counterexample: the only group holds the two
  preresults, and the bindings \<open>Z, B\<close> of \<open>n1\<close> are the output curies at position 0 in
  the order of the records.
\<close>

theorem bindings_in_insertion_order_witness:
  "update 1
     [(''e0'', \<lparr>connected_to = [], records =
        [\<lparr>getInputQueryNodeID = ''n0'', getOutputQueryNodeID = ''n1'',
          getInputCurie = ''A'', getOutputCurie = ''Z'',
          getInputIsSet = False, getOutputIsSet = True, getRecordHash = ''h2''\<rparr>,
         \<lparr>getInputQueryNodeID = ''n0'', getOutputQueryNodeID = ''n1'',
          getInputCurie = ''A'', getOutputCurie = ''B'',
          getInputIsSet = False, getOutputIsSet = True, getRecordHash = ''h1''\<rparr>]\<rparr>)]
     newQueryResult =
   (None, \<lparr>results_field =
     [\<lparr>node_bindings = [(''n0'', [Binding ''A'']), (''n1'', [Binding ''Z'', Binding ''B''])],
       edge_bindings = [(''e0'', [Binding ''h2'', Binding ''h1''])], score = 1\<rparr>]\<rparr>) \<and>
   \<lparr>node_bindings = [(''n0'', [Binding ''A'']), (''n1'', [Binding ''Z'', Binding ''B''])],
       edge_bindings = [(''e0'', [Binding ''h2'', Binding ''h1''])], score = 1\<rparr>
     \<in> set (getResults \<lparr>results_field =
     [\<lparr>node_bindings = [(''n0'', [Binding ''A'']), (''n1'', [Binding ''Z'', Binding ''B''])],
       edge_bindings = [(''e0'', [Binding ''h2'', Binding ''h1''])], score = 1\<rparr>]\<rparr>) \<and>
   (\<exists>qNodeIDsWithIsSet ucs k us.
    collectIsSet
     [(''e0'', \<lparr>connected_to = [], records =
        [\<lparr>getInputQueryNodeID = ''n0'', getOutputQueryNodeID = ''n1'',
          getInputCurie = ''A'', getOutputCurie = ''Z'',
          getInputIsSet = False, getOutputIsSet = True, getRecordHash = ''h2''\<rparr>,
         \<lparr>getInputQueryNodeID = ''n0'', getOutputQueryNodeID = ''n1'',
          getInputCurie = ''A'', getOutputCurie = ''B'',
          getInputIsSet = False, getOutputIsSet = True, getRecordHash = ''h1''\<rparr>]\<rparr>)] [] = Inr qNodeIDsWithIsSet \<and>
    unconsolidatedResults 1
     [(''e0'', \<lparr>connected_to = [], records =
        [\<lparr>getInputQueryNodeID = ''n0'', getOutputQueryNodeID = ''n1'',
          getInputCurie = ''A'', getOutputCurie = ''Z'',
          getInputIsSet = False, getOutputIsSet = True, getRecordHash = ''h2''\<rparr>,
         \<lparr>getInputQueryNodeID = ''n0'', getOutputQueryNodeID = ''n1'',
          getInputCurie = ''A'', getOutputCurie = ''B'',
          getInputIsSet = False, getOutputIsSet = True, getRecordHash = ''h1''\<rparr>]\<rparr>)] = Inr ucs \<and>
    (k, us) \<in> set (ucResultsByResultID qNodeIDsWithIsSet ucs) \<and>
    (\<forall>(q, bs) \<in> set (node_bindings
       \<lparr>node_bindings = [(''n0'', [Binding ''A'']), (''n1'', [Binding ''Z'', Binding ''B''])],
       edge_bindings = [(''e0'', [Binding ''h2'', Binding ''h1''])], score = 1\<rparr>). distinct bs \<and>
       (\<exists>i. (\<forall>u \<in> set us. i < length u) \<and>
          (bs = map Binding (Set_from (map (\<lambda>u. inputPrimaryCurie (u ! i)) us)) \<or>
           bs = map Binding (Set_from (map (\<lambda>u. outputPrimaryCurie (u ! i)) us))))) \<and>
    (\<forall>(q, bs) \<in> set (edge_bindings
       \<lparr>node_bindings = [(''n0'', [Binding ''A'']), (''n1'', [Binding ''Z'', Binding ''B''])],
       edge_bindings = [(''e0'', [Binding ''h2'', Binding ''h1''])], score = 1\<rparr>). distinct bs \<and>
       (\<exists>i. (\<forall>u \<in> set us. i < length u) \<and>
          bs = map Binding (Set_from (map (\<lambda>u. recordHash (u ! i)) us)))))"
proof -
  let ?data = "[(''e0'', \<lparr>connected_to = [], records =
        [\<lparr>getInputQueryNodeID = ''n0'', getOutputQueryNodeID = ''n1'',
          getInputCurie = ''A'', getOutputCurie = ''Z'',
          getInputIsSet = False, getOutputIsSet = True, getRecordHash = ''h2''\<rparr>,
         \<lparr>getInputQueryNodeID = ''n0'', getOutputQueryNodeID = ''n1'',
          getInputCurie = ''A'', getOutputCurie = ''B'',
          getInputIsSet = False, getOutputIsSet = True, getRecordHash = ''h1''\<rparr>]\<rparr>)]"
  let ?r = "\<lparr>node_bindings = [(''n0'', [Binding ''A'']), (''n1'', [Binding ''Z'', Binding ''B''])],
       edge_bindings = [(''e0'', [Binding ''h2'', Binding ''h1''])], score = 1\<rparr>"
  have h: "update 1 ?data newQueryResult = (None, \<lparr>results_field = [?r]\<rparr>)"
    by code_simp
  have m: "?r \<in> set (getResults \<lparr>results_field = [?r]\<rparr>)"
    by (simp add: getResults_def)
  from h m bindings_in_insertion_order [OF h m] show ?thesis
    by (intro conjI)
qed

text \<open>
  Claim C10. \<open>update\<close> replaces the stored results: after \<open>update(r1)\<close> and then
  \<open>update(r2)\<close> the assembler is in the state, and \<open>update\<close> has the outcome, of a
  single \<open>update(r2)\<close> on a new instance, so \<open>getResults()\<close> is the same; and a second
  \<open>update\<close> with the same input changes nothing.
\<close>

theorem update_replaces_results:
  "update depth r2 (snd (update depth r1 this)) = update depth r2 newQueryResult \<and>
   getResults (snd (update depth r2 (snd (update depth r1 this)))) =
     getResults (snd (update depth r2 newQueryResult)) \<and>
   update depth r (snd (update depth r this)) = update depth r this"
  by (cases this) (simp add: update_def newQueryResult_def getResults_def Let_def split: sum.splits)


text \<open>An update with one record after an update that fails on an empty object.\<close>

theorem update_replaces_results_witness:
  "getResults (snd (update 1
     [(''e0'', \<lparr>connected_to = [], records =
        [\<lparr>getInputQueryNodeID = ''n0'', getOutputQueryNodeID = ''n1'',
          getInputCurie = ''A'', getOutputCurie = ''B'',
          getInputIsSet = False, getOutputIsSet = False, getRecordHash = ''h''\<rparr>]\<rparr>)]
     (snd (update 1 [] newQueryResult)))) =
   getResults (snd (update 1
     [(''e0'', \<lparr>connected_to = [], records =
        [\<lparr>getInputQueryNodeID = ''n0'', getOutputQueryNodeID = ''n1'',
          getInputCurie = ''A'', getOutputCurie = ''B'',
          getInputIsSet = False, getOutputIsSet = False, getRecordHash = ''h''\<rparr>]\<rparr>)]
     newQueryResult))"
  using update_replaces_results [of 1 _ "[]" newQueryResult "[]"] by blast

section \<open>Properties of query-graph processing\<close>

text \<open>
  Claim C7. Whatever the query graph handler throws, \<open>_processQueryGraph\<close> throws an
  instance of \<open>InvalidQueryGraphError\<close>, whose name is the string
  \<open>InvalidQueryGraphError\<close> and whose status code is 400; nothing else leaves it.
\<close>

theorem processQueryGraph_errors:
  assumes "processQueryGraph calculated ls = Inl err"
  shows "\<exists>m. err = InstanceOfInvalidQueryGraphError m \<and>
    err_name (new_InvalidQueryGraphError m) = ''InvalidQueryGraphError'' \<and>
    statusCode (new_InvalidQueryGraphError m) = 400"
  using assms
  by (auto simp: processQueryGraph_def new_InvalidQueryGraphError_def
      split: sum.splits thrown.splits prod.splits)

text \<open>A \<open>TypeError\<close> inside the query graph handler leaves as the class's instance.\<close>

theorem processQueryGraph_errors_witness:
  "processQueryGraph (Inl (Other ''TypeError'') :: string thrown + (nat list \<times> nat list)) [] =
     Inl (InstanceOfInvalidQueryGraphError None) \<and>
   (\<exists>m. (InstanceOfInvalidQueryGraphError None :: string thrown) = InstanceOfInvalidQueryGraphError m \<and>
    err_name (new_InvalidQueryGraphError m) = ''InvalidQueryGraphError'' \<and>
    statusCode (new_InvalidQueryGraphError m) = 400)"
proof -
  have h: "processQueryGraph (Inl (Other ''TypeError'') :: string thrown + (nat list \<times> nat list)) [] =
     Inl (InstanceOfInvalidQueryGraphError None)"
    by (simp add: processQueryGraph_def)
  from h processQueryGraph_errors [OF h] show ?thesis
    by (intro conjI)
qed

section \<open>Properties of the knowledge graph\<close>

lemma createAttributes_begins:
  "createAttributes kgEdge = Inr attributes \<Longrightarrow> beginsWithAggregator attributes"
  by (auto simp: createAttributes_def beginsWithAggregator_def Let_def field_def attribute_def
      split: if_splits sum.splits)

lemma createEdge_begins:
  "createEdge kgEdge = Inr e \<Longrightarrow> beginsWithAggregator (edge_attributes e)"
  by (auto simp: createEdge_def split: sum.splits dest: createAttributes_begins)

lemma update_edges_begins:
  "\<forall>(k, e) \<in> set es. beginsWithAggregator (edge_attributes e) \<Longrightarrow>
   \<forall>(k, e) \<in> set (snd (update_edges es kgEdges)). beginsWithAggregator (edge_attributes e)"
proof (induction es kgEdges rule: update_edges.induct)
  case (1 es)
  then show ?case by simp
next
  case (2 es edge kgEdge rest)
  show ?case
  proof (cases "createEdge kgEdge")
    case (Inl a)
    with 2 show ?thesis by simp
  next
    case (Inr created)
    have "\<forall>(k, e) \<in> set (obj_set es edge created). beginsWithAggregator (edge_attributes e)"
      using 2(2) createEdge_begins [OF Inr] by (auto dest!: set_obj_set)
    with 2(1) [OF Inr] Inr show ?thesis by simp
  qed
qed

lemma kg_edges_kg_update:
  "kg_edges (snd (kg_update kg g)) = snd (update_edges (kg_edges kg) (bte_edges g))"
  by (simp add: kg_update_def Let_def split: prod.splits)

text \<open>
  Claim C9. Every edge in a knowledge graph that the builder holds, after any number of
  updates and whichever of the three branches of \<open>_createAttributes\<close> made its
  attributes, has a list of attributes that begins with the attribute whose
  \<open>attribute_type_id\<close> is \<open>biolink:aggregator_knowledge_source\<close> and whose value is the
  one-element list of \<open>infores:translator-biothings-explorer\<close>.
\<close>

theorem emitted_edges_begin_with_aggregator:
  assumes "built kg" and "(k, e) \<in> set (kg_edges kg)"
  shows "beginsWithAggregator (edge_attributes e)"
proof -
  from assms(1) have "\<forall>(k, e) \<in> set (kg_edges kg). beginsWithAggregator (edge_attributes e)"
  proof (induction rule: built.induct)
    case built_new
    show ?case by (simp add: newKnowledgeGraph_def)
  next
    case (built_update kg bteGraph)
    show ?case
      unfolding kg_edges_kg_update by (rule update_edges_begins [OF built_update.IH])
  qed
  with assms(2) show ?thesis by auto
qed

text \<open>
  One update with an edge of each kind: attributes passed through from a TRAPI API, an API
  of the list of direct providers, and any other API.
\<close>

theorem emitted_edges_begin_with_aggregator_witness:
  "built (snd (kg_update newKnowledgeGraph
     \<lparr>bte_nodes = [],
      bte_edges =
        [(''a'', \<lparr>kg_predicate = ''biolink:treats'', kg_subject = ''C1'', kg_object = ''D1'',
                  apis = [''Automat''], sources = [], inforesCuries = [], publications = [],
                  kg_attributes = [(''attributes'', JArr [JObj [(''attribute_type_id'', JStr ''x'')]])]\<rparr>),
         (''b'', \<lparr>kg_predicate = ''biolink:treats'', kg_subject = ''C1'', kg_object = ''D2'',
                  apis = [''Drug Response KP API''], sources = [''s''], inforesCuries = [''infores:x''],
                  publications = [''PMID:1''], kg_attributes = [(''p'', JNum 1)]\<rparr>),
         (''c'', \<lparr>kg_predicate = ''biolink:treats'', kg_subject = ''C1'', kg_object = ''D3'',
                  apis = [''MyChem.info API''], sources = [''s''], inforesCuries = [''infores:y''],
                  publications = [], kg_attributes = []\<rparr>)]\<rparr>)) \<and>
   (''c'', \<lparr>edge_predicate = ''biolink:treats'', edge_subject = ''C1'', edge_object = ''D3'',
           edge_attributes =
             [attribute ''biolink:aggregator_knowledge_source''
                (JArr [JStr ''infores:translator-biothings-explorer'']) ''biolink:InformationResource'',
              attribute ''biolink:primary_knowledge_source'' (JArr [JStr ''s''])
                ''biolink:InformationResource'',
              attribute ''biolink:aggregator_knowledge_source'' (JArr [JStr ''infores:y''])
                ''biolink:InformationResource'',
              attribute ''publications'' (JArr []) ''biolink:publication'']\<rparr>)
     \<in> set (kg_edges (snd (kg_update newKnowledgeGraph
     \<lparr>bte_nodes = [],
      bte_edges =
        [(''a'', \<lparr>kg_predicate = ''biolink:treats'', kg_subject = ''C1'', kg_object = ''D1'',
                  apis = [''Automat''], sources = [], inforesCuries = [], publications = [],
                  kg_attributes = [(''attributes'', JArr [JObj [(''attribute_type_id'', JStr ''x'')]])]\<rparr>),
         (''b'', \<lparr>kg_predicate = ''biolink:treats'', kg_subject = ''C1'', kg_object = ''D2'',
                  apis = [''Drug Response KP API''], sources = [''s''], inforesCuries = [''infores:x''],
                  publications = [''PMID:1''], kg_attributes = [(''p'', JNum 1)]\<rparr>),
         (''c'', \<lparr>kg_predicate = ''biolink:treats'', kg_subject = ''C1'', kg_object = ''D3'',
                  apis = [''MyChem.info API''], sources = [''s''], inforesCuries = [''infores:y''],
                  publications = [], kg_attributes = []\<rparr>)]\<rparr>))) \<and>
   beginsWithAggregator (edge_attributes
     \<lparr>edge_predicate = ''biolink:treats'', edge_subject = ''C1'', edge_object = ''D3'',
           edge_attributes =
             [attribute ''biolink:aggregator_knowledge_source''
                (JArr [JStr ''infores:translator-biothings-explorer'']) ''biolink:InformationResource'',
              attribute ''biolink:primary_knowledge_source'' (JArr [JStr ''s''])
                ''biolink:InformationResource'',
              attribute ''biolink:aggregator_knowledge_source'' (JArr [JStr ''infores:y''])
                ''biolink:InformationResource'',
              attribute ''publications'' (JArr []) ''biolink:publication'']\<rparr>)"
proof -
  let ?g = "\<lparr>bte_nodes = [],
      bte_edges =
        [(''a'', \<lparr>kg_predicate = ''biolink:treats'', kg_subject = ''C1'', kg_object = ''D1'',
                  apis = [''Automat''], sources = [], inforesCuries = [], publications = [],
                  kg_attributes = [(''attributes'', JArr [JObj [(''attribute_type_id'', JStr ''x'')]])]\<rparr>),
         (''b'', \<lparr>kg_predicate = ''biolink:treats'', kg_subject = ''C1'', kg_object = ''D2'',
                  apis = [''Drug Response KP API''], sources = [''s''], inforesCuries = [''infores:x''],
                  publications = [''PMID:1''], kg_attributes = [(''p'', JNum 1)]\<rparr>),
         (''c'', \<lparr>kg_predicate = ''biolink:treats'', kg_subject = ''C1'', kg_object = ''D3'',
                  apis = [''MyChem.info API''], sources = [''s''], inforesCuries = [''infores:y''],
                  publications = [], kg_attributes = []\<rparr>)]\<rparr>"
  let ?e = "\<lparr>edge_predicate = ''biolink:treats'', edge_subject = ''C1'', edge_object = ''D3'',
           edge_attributes =
             [attribute ''biolink:aggregator_knowledge_source''
                (JArr [JStr ''infores:translator-biothings-explorer'']) ''biolink:InformationResource'',
              attribute ''biolink:primary_knowledge_source'' (JArr [JStr ''s''])
                ''biolink:InformationResource'',
              attribute ''biolink:aggregator_knowledge_source'' (JArr [JStr ''infores:y''])
                ''biolink:InformationResource'',
              attribute ''publications'' (JArr []) ''biolink:publication'']\<rparr>"
  have b: "built (snd (kg_update newKnowledgeGraph ?g))"
    by (rule built_update [OF built_new])
  have m: "(''c'', ?e) \<in> set (kg_edges (snd (kg_update newKnowledgeGraph ?g)))"
    by (simp add: kg_edges_kg_update newKnowledgeGraph_def createEdge_def createAttributes_def
        obj_get_def directProviders_def strings_def Let_def)
  from b m emitted_edges_begin_with_aggregator [OF b m] show ?thesis
    by (intro conjI)
qed

section \<open>Properties of the cache key\<close>

lemma hashEdgeByKG_components:
  "kgComponents kg1 = kgComponents kg2 \<Longrightarrow> hashEdgeByKG h kg1 x = hashEdgeByKG h kg2 x"
  by (cases kg1; cases kg2) (auto simp: kgComponents_def hashEdgeByKG_def)

text \<open>
  With a hash function that has no collisions, edges that are hashed from different texts
  have different keys.
\<close>

lemma cache_key_injective_hash:
  assumes "inj generateHash" and "toBeHashed e1 \<noteq> toBeHashed e2"
  shows "cacheKey generateHash kg e1 \<noteq> cacheKey generateHash kg e2"
proof (cases kg)
  case None
  with assms show ?thesis
    by (simp add: cacheKey_def hashEdgeByKG_def getHashedEdgeRepresentation_def inj_eq)
next
  case (Some a)
  with assms show ?thesis
    by (simp add: cacheKey_def hashEdgeByKG_def getHashedEdgeRepresentation_def inj_eq)
qed

text \<open>
  Claim C4, as stated, fails in its second part: the categories are hashed in the order
  \<open>getCategories()\<close> returns them, joined by commas, and nothing sorts them. Two edges
  that differ only in the order of the subject's categories are hashed from different
  texts, and their keys differ unless the hash function collides on them; the keys below
  are taken with the hash function that returns its text.
\<close>

theorem permuted_categories_counterexample:
  "getCategories (subject
      \<lparr>qEdge_subject = \<lparr>getCategories = [''Gene'', ''Protein''], getCurie = Str ''NCBIGene:1017''\<rparr>,
       qEdge_object = \<lparr>getCategories = [''Disease''], getCurie = Undefined\<rparr>,
       subject = \<lparr>getCategories = [''Protein'', ''Gene''], getCurie = Str ''NCBIGene:1017''\<rparr>,
       predicate = Arr [''related_to''],
       object = \<lparr>getCategories = [''Disease''], getCurie = Undefined\<rparr>\<rparr>) =
   rev (getCategories (subject
      \<lparr>qEdge_subject = \<lparr>getCategories = [''Gene'', ''Protein''], getCurie = Str ''NCBIGene:1017''\<rparr>,
       qEdge_object = \<lparr>getCategories = [''Disease''], getCurie = Undefined\<rparr>,
       subject = \<lparr>getCategories = [''Gene'', ''Protein''], getCurie = Str ''NCBIGene:1017''\<rparr>,
       predicate = Arr [''related_to''],
       object = \<lparr>getCategories = [''Disease''], getCurie = Undefined\<rparr>\<rparr>)) \<and>
   toBeHashed
      \<lparr>qEdge_subject = \<lparr>getCategories = [''Gene'', ''Protein''], getCurie = Str ''NCBIGene:1017''\<rparr>,
       qEdge_object = \<lparr>getCategories = [''Disease''], getCurie = Undefined\<rparr>,
       subject = \<lparr>getCategories = [''Gene'', ''Protein''], getCurie = Str ''NCBIGene:1017''\<rparr>,
       predicate = Arr [''related_to''],
       object = \<lparr>getCategories = [''Disease''], getCurie = Undefined\<rparr>\<rparr> =
     ''Gene,Proteinrelated_toDiseaseNCBIGene:1017'' \<and>
   toBeHashed
      \<lparr>qEdge_subject = \<lparr>getCategories = [''Gene'', ''Protein''], getCurie = Str ''NCBIGene:1017''\<rparr>,
       qEdge_object = \<lparr>getCategories = [''Disease''], getCurie = Undefined\<rparr>,
       subject = \<lparr>getCategories = [''Protein'', ''Gene''], getCurie = Str ''NCBIGene:1017''\<rparr>,
       predicate = Arr [''related_to''],
       object = \<lparr>getCategories = [''Disease''], getCurie = Undefined\<rparr>\<rparr> =
     ''Protein,Generelated_toDiseaseNCBIGene:1017'' \<and>
   cacheKey (\<lambda>text. text) (Some \<lparr>ops = [''api1'', ''api2'']\<rparr>)
      \<lparr>qEdge_subject = \<lparr>getCategories = [''Gene'', ''Protein''], getCurie = Str ''NCBIGene:1017''\<rparr>,
       qEdge_object = \<lparr>getCategories = [''Disease''], getCurie = Undefined\<rparr>,
       subject = \<lparr>getCategories = [''Gene'', ''Protein''], getCurie = Str ''NCBIGene:1017''\<rparr>,
       predicate = Arr [''related_to''],
       object = \<lparr>getCategories = [''Disease''], getCurie = Undefined\<rparr>\<rparr> \<noteq>
   cacheKey (\<lambda>text. text) (Some \<lparr>ops = [''api1'', ''api2'']\<rparr>)
      \<lparr>qEdge_subject = \<lparr>getCategories = [''Gene'', ''Protein''], getCurie = Str ''NCBIGene:1017''\<rparr>,
       qEdge_object = \<lparr>getCategories = [''Disease''], getCurie = Undefined\<rparr>,
       subject = \<lparr>getCategories = [''Protein'', ''Gene''], getCurie = Str ''NCBIGene:1017''\<rparr>,
       predicate = Arr [''related_to''],
       object = \<lparr>getCategories = [''Disease''], getCurie = Undefined\<rparr>\<rparr>"
  by (simp add: toBeHashed_def cacheKey_def hashEdgeByKG_def getHashedEdgeRepresentation_def
      toString_def arrayToString_def getInputCurie_edge_def curieTruthy_def)

text \<open>
  Claim C4, amended. The cache key is a function of the list of the subject's categories,
  the predicate, the list of the object's categories and the input curies, each in the
  order in which the edge holds it, and, when a MetaKG is set, of the number of its
  operations and the concatenation of its distinct API identifiers in the order of their
  first occurrence: two edges that agree on these have the same key.
\<close>

theorem cache_key_depends_on_components:
  assumes "getCategories (subject e1) = getCategories (subject e2)"
    and "predicate e1 = predicate e2"
    and "getCategories (object e1) = getCategories (object e2)"
    and "getInputCurie_edge e1 = getInputCurie_edge e2"
    and "kgComponents kg1 = kgComponents kg2"
  shows "cacheKey generateHash kg1 e1 = cacheKey generateHash kg2 e2"
proof -
  have "toBeHashed e1 = toBeHashed e2"
    using assms(1-4) by (simp add: toBeHashed_def)
  then show ?thesis
    using hashEdgeByKG_components [OF assms(5)]
    by (simp add: cacheKey_def getHashedEdgeRepresentation_def)
qed

text \<open>
  Two edges that differ in what the key ignores (the curie of the output node, a string or
  a one-element array for the input curie) and two MetaKGs with the same number of
  operations and the same distinct identifiers.
\<close>

theorem cache_key_depends_on_components_witness:
  "cacheKey rev (Some \<lparr>ops = [''api1'', ''api2'', ''api1'']\<rparr>)
      \<lparr>qEdge_subject = \<lparr>getCategories = [''Gene''], getCurie = Str ''NCBIGene:1017''\<rparr>,
       qEdge_object = \<lparr>getCategories = [''Disease''], getCurie = Undefined\<rparr>,
       subject = \<lparr>getCategories = [''Gene''], getCurie = Str ''NCBIGene:1017''\<rparr>,
       predicate = Arr [''related_to''],
       object = \<lparr>getCategories = [''Disease''], getCurie = Undefined\<rparr>\<rparr> =
   cacheKey rev (Some \<lparr>ops = [''api1'', ''api2'', ''api2'']\<rparr>)
      \<lparr>qEdge_subject = \<lparr>getCategories = [''Gene''], getCurie = Arr [''NCBIGene:1017'']\<rparr>,
       qEdge_object = \<lparr>getCategories = [''Disease''], getCurie = Str ''MONDO:1''\<rparr>,
       subject = \<lparr>getCategories = [''Gene''], getCurie = Arr [''NCBIGene:1017'']\<rparr>,
       predicate = Arr [''related_to''],
       object = \<lparr>getCategories = [''Disease''], getCurie = Str ''MONDO:1''\<rparr>\<rparr>"
  by (rule cache_key_depends_on_components)
     (simp_all add: getInputCurie_edge_def curieTruthy_def kgComponents_def allIDs_def
        Set_from_def Set_add_def)


section \<open>Properties of the cache payload streams\<close>

lemma chunker_long:
  "chunkSize < length s \<Longrightarrow> chunker s = take chunkSize s # chunker (drop chunkSize s)"
  by (subst chunker.simps) auto

lemma transform_no_comma:
  "CHR '','' \<notin> set chunk \<Longrightarrow>
   transform parse chunk \<lparr>buffer = [], pushed = []\<rparr> = NotCalled \<lparr>buffer = chunk, pushed = []\<rparr>"
  by (simp add: transform_def Let_def)

text \<open>
  Claim C3 fails on the code. The decoder calls the callback of \<open>_transform\<close> only when
  its buffer holds a comma. A record whose encoded payload is at least as long as a chunk
  fills the first chunk without a comma, so the decoder never asks for the next chunk and
  never ends: the list is not read back.
\<close>

theorem large_payload_stalls_decoder:
  assumes "CHR '','' \<notin> set (encode r)" and "chunkSize \<le> length (encode r)"
  shows "decodeStream parse (chunker (encodeStream encode (r # rs))) = Stalled"
proof -
  let ?s = "encodeStream encode (r # rs)"
  have s: "?s = encode r @ '','' @ encodeStream encode rs"
    by (simp add: encodeStream_def)
  have len: "chunkSize < length ?s" using assms(2) by (simp add: s)
  have first: "take chunkSize ?s = take chunkSize (encode r)"
    using assms(2) by (simp add: s)
  have "CHR '','' \<notin> set (take chunkSize ?s)"
    unfolding first using assms(1) by (auto dest: in_set_takeD)
  then show ?thesis
    by (simp add: decodeStream_def chunker_long [OF len] transform_no_comma)
qed

text \<open>A first payload of 100000 characters.\<close>

theorem large_payload_stalls_decoder_witness:
  "CHR '','' \<notin> set (replicate 100000 (CHR ''A'')) \<and>
   chunkSize \<le> length (replicate 100000 (CHR ''A'')) \<and>
   decodeStream (\<lambda>part. Some part)
     (chunker (encodeStream (\<lambda>r. r) [replicate 100000 (CHR ''A'')])) = Stalled"
proof -
  have a: "CHR '','' \<notin> set (replicate 100000 (CHR ''A''))" by simp
  have b: "chunkSize \<le> length (replicate 100000 (CHR ''A''))"
    by (simp add: chunkSize_def)
  note t = large_payload_stalls_decoder [where encode = "\<lambda>r. r"
      and r = "replicate 100000 (CHR ''A'')" and parse = "\<lambda>part. Some part" and rs = "[]"]
  from a b t [OF a b] show ?thesis by (intro conjI)
qed

subsection \<open>Payloads shorter than a chunk\<close>

text \<open>
  Where every payload is shorter than a chunk, has no comma and is parsed back to its
  record, every chunk holds a comma and the decoder returns the list.
\<close>

lemma split_comma_nonempty: "split_comma s \<noteq> []"
  by (induction s) (auto split: list.splits)

lemma split_comma_no_comma: "CHR '','' \<notin> set p \<Longrightarrow> split_comma p = [p]"
  by (induction p) auto

lemma split_comma_token:
  "CHR '','' \<notin> set t \<Longrightarrow> split_comma (t @ CHR '','' # rest) = t # split_comma rest"
  by (induction t) (auto split: list.splits simp: split_comma_nonempty)

lemma split_comma_stream:
  "\<forall>r \<in> set rs. CHR '','' \<notin> set (encode r) \<Longrightarrow> CHR '','' \<notin> set p \<Longrightarrow>
   split_comma (encodeStream encode rs @ p) = map encode rs @ [p]"
proof (induction rs)
  case Nil
  then show ?case by (simp add: encodeStream_def split_comma_no_comma)
next
  case (Cons r rs)
  have "encodeStream encode (r # rs) @ p = encode r @ '','' @ (encodeStream encode rs @ p)"
    by (simp add: encodeStream_def)
  moreover have "CHR '','' \<notin> set (encode r)" using Cons.prems(1) by simp
  moreover have "split_comma (encodeStream encode rs @ p) = map encode rs @ [p]"
    using Cons by simp
  ultimately show ?case by (simp add: split_comma_token)
qed

lemma push_parts_encoded:
  "\<forall>r \<in> set rs. parse (encode r) = Some r \<Longrightarrow>
   push_parts parse (map encode rs) this = Called (this\<lparr>pushed := pushed this @ rs\<rparr>)"
  by (induction rs arbitrary: this) auto

lemma comma_in_stream: "rs \<noteq> [] \<Longrightarrow> CHR '','' \<in> set (encodeStream encode rs)"
  by (cases rs) (auto simp: encodeStream_def)

lemma transform_tokens:
  assumes "\<forall>r \<in> set rs. CHR '','' \<notin> set (encode r) \<and> parse (encode r) = Some r"
    and "CHR '','' \<notin> set p" and "rs \<noteq> []"
    and "b @ chunk = encodeStream encode rs @ p"
  shows "transform parse chunk \<lparr>buffer = b, pushed = ps\<rparr> =
     Called \<lparr>buffer = p, pushed = ps @ rs\<rparr>"
proof -
  have c: "CHR '','' \<in> set (b @ chunk)"
    unfolding assms(4) using comma_in_stream [OF assms(3)] by simp
  have s: "split_comma (b @ chunk) = map encode rs @ [p]"
    unfolding assms(4) using assms(1,2) by (simp add: split_comma_stream)
  show ?thesis
    using c assms(1) by (simp add: transform_def Let_def s push_parts_encoded del: set_append)
qed

lemma stream_split:
  assumes "\<forall>r \<in> set rs. CHR '','' \<notin> set (encode r)"
    and "encodeStream encode rs = X @ Y"
  shows "\<exists>rs1 rs2 p. rs = rs1 @ rs2 \<and> X = encodeStream encode rs1 @ p \<and>
     CHR '','' \<notin> set p \<and> p @ Y = encodeStream encode rs2"
  using assms
proof (induction rs arbitrary: X)
  case Nil
  then show ?case by (simp add: encodeStream_def)
next
  case (Cons r rs)
  have T: "encode r @ '','' @ encodeStream encode rs = X @ Y"
    using Cons.prems(2) by (simp add: encodeStream_def)
  show ?case
  proof (cases "length X \<le> length (encode r)")
    case True
    have "take (length X) (X @ Y) = X" by simp
    moreover have "take (length X) (encode r @ '','' @ encodeStream encode rs) =
        take (length X) (encode r)"
      using True by simp
    ultimately have "X = take (length X) (encode r)"
      unfolding T by simp
    then have "CHR '','' \<notin> set X"
      using Cons.prems(1) by (metis in_set_takeD list.set_intros(1))
    then show ?thesis
      using Cons.prems(2) by (intro exI [of _ "[]"] exI [of _ "r # rs"] exI [of _ X])
        (simp add: encodeStream_def)
  next
    case False
    then have "length (encode r @ '','') \<le> length X" by simp
    then have "take (length (encode r @ '','')) (X @ Y) = take (length (encode r @ '','')) X"
      by simp
    moreover have "take (length (encode r @ '','')) (X @ Y) = encode r @ '',''"
      unfolding T [symmetric] by simp
    ultimately have "X = (encode r @ '','') @ drop (length (encode r @ '','')) X"
      by (metis append_take_drop_id)
    then obtain X' where X: "X = encode r @ '','' @ X'"
      by (metis append.assoc)
    with T have "encodeStream encode rs = X' @ Y" by simp
    from Cons.IH [OF _ this] Cons.prems(1) obtain rs1 rs2 p where
      "rs = rs1 @ rs2" "X' = encodeStream encode rs1 @ p" "CHR '','' \<notin> set p"
      "p @ Y = encodeStream encode rs2" by auto
    then show ?thesis
      using X by (intro exI [of _ "r # rs1"] exI [of _ rs2] exI [of _ p])
        (simp add: encodeStream_def)
  qed
qed


lemma chunker_Nil: "chunker [] = []"
  by (subst chunker.simps) simp

lemma chunker_step:
  assumes "s \<noteq> []"
  shows "\<exists>c s'. chunker s = c # chunker s' \<and> c @ s' = s \<and> c \<noteq> [] \<and> length s' < length s \<and>
     (s' = [] \<or> length c = chunkSize)"
proof (cases "length s \<le> chunkSize")
  case True
  with assms have "chunker s = s # chunker []"
    by (subst chunker.simps) (simp add: chunker_Nil)
  with assms show ?thesis by auto
next
  case False
  with assms have "chunker s = take chunkSize s # chunker (drop chunkSize s)"
    by (subst chunker.simps) simp
  moreover have "take chunkSize s \<noteq> []" using False by (auto simp: chunkSize_def)
  moreover have "length (drop chunkSize s) < length s" using False by (simp add: chunkSize_def)
  moreover have "length (take chunkSize s) = chunkSize" using False by simp
  ultimately show ?thesis
    by (intro exI [of _ "take chunkSize s"] exI [of _ "drop chunkSize s"]) simp
qed

lemma take_prefix:
  "length t \<le> length X \<Longrightarrow> X @ Y = t @ Z \<Longrightarrow> take (length t) X = t"
proof (induction t arbitrary: X)
  case Nil
  then show ?case by simp
next
  case (Cons a t)
  then obtain x X' where X: "X = x # X'" by (cases X) auto
  with Cons.prems have "a = x" "X' @ Y = t @ Z" "length t \<le> length X'" by auto
  with Cons.IH [of X'] X show ?case by simp
qed

lemma chunk_has_comma:
  assumes "\<forall>r \<in> set rs. length (encode r) < chunkSize"
    and "b @ c @ s' = encodeStream encode rs" and "c \<noteq> []"
    and "s' = [] \<or> length c = chunkSize"
  shows "CHR '','' \<in> set (b @ c)"
proof (cases rs)
  case Nil
  with assms(2,3) show ?thesis by (simp add: encodeStream_def)
next
  case (Cons r rs')
  show ?thesis
  proof (cases "s' = []")
    case True
    with assms(2) have "b @ c = encodeStream encode rs" by simp
    then show ?thesis using comma_in_stream [of rs encode] Cons by simp
  next
    case False
    with assms(4) have "length c = chunkSize" by simp
    moreover have "length (encode r) < chunkSize" using assms(1) Cons by simp
    ultimately have len: "length (encode r @ '','') \<le> length (b @ c)" by simp
    have T: "(b @ c) @ s' = (encode r @ '','') @ encodeStream encode rs'"
      using assms(2) Cons by (simp add: encodeStream_def)
    have "encode r @ '','' = take (length (encode r @ '','')) (b @ c)"
      using take_prefix [OF len T] by simp
    then have "CHR '','' \<in> set (take (length (encode r @ '','')) (b @ c))"
      by (metis in_set_conv_decomp)
    then show ?thesis by (rule in_set_takeD)
  qed
qed

lemma decodeFrom_round_trip:
  assumes "\<forall>r \<in> set rs. CHR '','' \<notin> set (encode r) \<and> parse (encode r) = Some r \<and>
             length (encode r) < chunkSize"
    and "CHR '','' \<notin> set b" and "b @ s = encodeStream encode rs"
  shows "decodeFrom parse \<lparr>buffer = b, pushed = ps\<rparr> (chunker s) = Ended (ps @ rs)"
  using assms
proof (induction "length s" arbitrary: s b ps rs rule: less_induct)
  case less
  show ?case
  proof (cases "s = []")
    case True
    with less.prems(2,3) have "rs = []"
      using comma_in_stream [of rs encode] by auto
    with True less.prems(3) show ?thesis
      by (simp add: chunker_Nil flush_def encodeStream_def)
  next
    case False
    from chunker_step [OF False] obtain c s' where
      ch: "chunker s = c # chunker s'" and cs: "c @ s' = s" and c: "c \<noteq> []"
      and l: "length s' < length s" and k: "s' = [] \<or> length c = chunkSize" by blast
    have all: "encodeStream encode rs = (b @ c) @ s'"
      using less.prems(3) cs by simp
    have nc: "\<forall>r \<in> set rs. CHR '','' \<notin> set (encode r)" using less.prems(1) by simp
    from stream_split [OF nc all] obtain rs1 rs2 p where
      rs: "rs = rs1 @ rs2" and X: "b @ c = encodeStream encode rs1 @ p"
      and p: "CHR '','' \<notin> set p" and Y: "p @ s' = encodeStream encode rs2" by blast
    have "CHR '','' \<in> set (b @ c)"
      using chunk_has_comma [of rs encode b c s'] less.prems(1) all c k by simp
    with X p have ne: "rs1 \<noteq> []" by (auto simp: encodeStream_def)
    have P1: "\<forall>r \<in> set rs1. CHR '','' \<notin> set (encode r) \<and> parse (encode r) = Some r"
      using less.prems(1) rs by simp
    have P2: "\<forall>r \<in> set rs2. CHR '','' \<notin> set (encode r) \<and> parse (encode r) = Some r \<and>
             length (encode r) < chunkSize"
      using less.prems(1) rs by simp
    have t: "transform parse c \<lparr>buffer = b, pushed = ps\<rparr> =
       Called \<lparr>buffer = p, pushed = ps @ rs1\<rparr>"
      by (rule transform_tokens [OF P1 p ne X])
    have "decodeFrom parse \<lparr>buffer = p, pushed = ps @ rs1\<rparr> (chunker s') = Ended ((ps @ rs1) @ rs2)"
      by (rule less.hyps [OF l P2 p Y])
    with t ch rs show ?thesis by simp
  qed
qed

lemma small_payloads_round_trip:
  assumes "\<forall>r \<in> set rs. CHR '','' \<notin> set (encode r) \<and> parse (encode r) = Some r \<and>
             length (encode r) < chunkSize"
  shows "decodeStream parse (chunker (encodeStream encode rs)) = Ended rs"
  using decodeFrom_round_trip [OF assms, of "[]" "encodeStream encode rs" "[]"]
  by (simp add: decodeStream_def)


subsection \<open>Cache lookup\<close>

text \<open>The lock of a lookup is released whatever the reply and the payload are.\<close>

lemma lock_released: "lockHeld (lookupEdge parse cachedRecord) = False"
  by (simp add: lookupEdge_def Let_def)

text \<open>
  Claim C6 fails on the code in its second part. The lock is released, but a payload that
  cannot be decoded does not make the lookup a miss: the exception in \<open>_transform\<close> and
  the error that \<open>_flush\<close> passes to its callback arise in the stream, after the
  \<open>try\<close> block has been left and where no \<open>error\<close> handler listens, so the promise
  is never resolved and \<open>categorizeEdges\<close> does not return. A miss, by contrast, returns
  the edge among the edges that are not cached.
\<close>

theorem decode_failure_is_not_a_miss:
  "categorizeEdges (\<lambda>part. None :: unit option) (\<lambda>e r. r) (\<lambda>e. e)
      (\<lambda>key. ReplyHash [(0, ''corrupt,'')]) [''e0''] = None \<and>
   categorizeEdges (\<lambda>part. if part = ''good'' then Some () else None) (\<lambda>e r. r) (\<lambda>e. e)
      (\<lambda>key. ReplyHash [(0, ''good,corrupt'')]) [''e0''] = None \<and>
   categorizeEdges (\<lambda>part. None :: unit option) (\<lambda>e r. r) (\<lambda>e. e)
      (\<lambda>key. ReplyNull) [''e0''] =
     Some \<lparr>cachedRecords = [], nonCachedQXEdges = [''e0''], cacheHits = []\<rparr> \<and>
   lockHeld (lookupEdge (\<lambda>part. None :: unit option) (ReplyHash [(0, ''corrupt,'')])) = False"
  by (simp add: categorizeEdges_def lookupEdge_def decodeStream_def transform_def flush_def Let_def)


section \<open>Properties of the query loop\<close>

lemma logSkippedQueries_appends:
  "\<exists>before. logSkippedQueries u (ls @ xs) = ls @ before"
proof (induction u arbitrary: xs)
  case Nil
  show ?case by simp
next
  case (Cons a u)
  obtain api k where a: "a = (api, k)" by (cases a)
  show ?case using Cons [of "xs @ _"] Cons [of xs] by (auto simp: a)
qed

lemma loop_body_zero:
  assumes "getNext c w = (e, w1)"
    and "handler_query c e u w1 = (queryRecords, hl, u', w2)"
    and "w3 = updateAllOtherEdges c e (updateEdgeRecords c e (storeRecords c e queryRecords w2))"
    and "queryRecords = [] \<or> edge_records c e w3 = []"
  shows "\<exists>ls' w'. loop_body c (ls, u, w) = Return (ls', u', w') \<and>
     (w' = w2 \<or> w' = w3) \<and>
     (\<exists>before. ls' = ls @ before @ [gotNoRecords (getID c e)] \<or>
                ls' = ls @ before @ [keptNoRecords (getID c e)])"
proof -
  obtain before where b:
    "logSkippedQueries u' (ls @ [LogEntry ''INFO'' (executingMessage c e) None] @ hl @
        [LogEntry ''INFO'' (executionSummary c e
           ((ls @ [LogEntry ''INFO'' (executingMessage c e) None]) @ hl) (length queryRecords))
           (Some [])]) = ls @ before"
    using logSkippedQueries_appends by blast
  show ?thesis
  proof (cases "queryRecords = []")
    case True
    with b assms(1,2) show ?thesis
      by (auto simp: loop_body_def Let_def)
  next
    case False
    with assms(4) have "edge_records c e w3 = []" by simp
    with False b assms(1,2,3) show ?thesis
      by (auto simp: loop_body_def Let_def)
  qed
qed

lemma reaches_loop:
  "reaches c s0 s \<Longrightarrow> query_loop n c s = Some r \<Longrightarrow> \<exists>m. query_loop m c s0 = Some r"
proof (induction arbitrary: n rule: reaches.induct)
  case (reaches_start c s0)
  then show ?case by blast
next
  case (reaches_pass c s0 s s')
  from reaches_pass.hyps(2,3) reaches_pass.prems
  have "query_loop (Suc n) c s = Some r" by simp
  from reaches_pass.IH [OF this] show ?case .
qed


lemma last_warning:
  "ls' = ls @ before @ [gotNoRecords i] \<or> ls' = ls @ before @ [keptNoRecords i] \<Longrightarrow>
   level (last ls') = ''WARNING''"
  by (auto simp: gotNoRecords_def keptNoRecords_def LogEntry_def)

text \<open>
  Claim C5. Let the loop of \<open>query\<close> arrive at its test with an edge left, and let the
  edge that the manager selects get no records from the handler, or keep none after
  storing and filtering. Then this pass leaves the loop by \<open>return\<close>: the collaborators'
  state is the one this edge's pass produced, so no other edge is selected or queried; the
  last log entry is the warning for this edge; \<open>query\<close> returns without an exception;
  and the response holds these logs and an empty list of results.
\<close>

theorem zero_records_ends_query:
  assumes "processQueryGraph calculated (logs (warnMissingAPIs missingAPIs (initializeResponse this))) =
             Inr (edges, logs3)"
    and "supported edges = (True, supportLogs)"
    and "reaches c (logs3 @ supportLogs, [], initial edges) (ls, u, w)"
    and "getEdgesNotExecuted c w"
    and "getNext c w = (e, w1)"
    and "handler_query c e u w1 = (queryRecords, hl, u', w2)"
    and "w3 = updateAllOtherEdges c e (updateEdgeRecords c e (storeRecords c e queryRecords w2))"
    and "queryRecords = [] \<or> edge_records c e w3 = []"
  shows "\<exists>ls' w' m this'.
      query_loop (Suc n) c (ls, u, w) = Some (Return (ls', u', w')) \<and>
      (w' = w2 \<or> w' = w3) \<and>
      (\<exists>before. ls' = ls @ before @ [gotNoRecords (getID c e)] \<or>
                 ls' = ls @ before @ [keptNoRecords (getID c e)]) \<and>
      level (last ls') = ''WARNING'' \<and>
      query m c missingAPIs calculated supported initial finish this = Some (None, this') \<and>
      this' = (warnMissingAPIs missingAPIs (initializeResponse this))\<lparr>logs := ls'\<rparr> \<and>
      response_logs (getResponse this') = ls' \<and>
      message_results (getResponse this') = []"
proof -
  from loop_body_zero [OF assms(5-8), of ls] obtain ls' w' where
    body: "loop_body c (ls, u, w) = Return (ls', u', w')" and
    w': "w' = w2 \<or> w' = w3" and
    l: "\<exists>before. ls' = ls @ before @ [gotNoRecords (getID c e)] \<or>
                  ls' = ls @ before @ [keptNoRecords (getID c e)]"
    by blast
  have loop: "query_loop (Suc n) c (ls, u, w) = Some (Return (ls', u', w'))"
    using assms(4) body by simp
  from reaches_loop [OF assms(3) loop] obtain m where
    m: "query_loop m c (logs3 @ supportLogs, [], initial edges) = Some (Return (ls', u', w'))"
    by blast
  let ?this' = "(warnMissingAPIs missingAPIs (initializeResponse this))\<lparr>logs := ls'\<rparr>"
  have q: "query m c missingAPIs calculated supported initial finish this = Some (None, ?this')"
    using assms(1,2) m by (simp add: query_def Let_def)
  have r: "message_results (getResponse ?this') = []"
    by (cases missingAPIs)
       (simp_all add: getResponse_def warnMissingAPIs_def initializeResponse_def
          getResults_def newQueryResult_def)
  have g: "response_logs (getResponse ?this') = ls'"
    by (simp add: getResponse_def)
  from l have lw: "level (last ls') = ''WARNING''"
    using last_warning by blast
  from loop w' l lw q r g show ?thesis by blast
qed

text \<open>
  A manager with two edges and a handler that finds no records: the first pass ends the
  query, and the results of an earlier query are gone from the response.
\<close>

theorem zero_records_ends_query_witness:
  "\<exists>ls' m this'.
     query m
       \<lparr>getEdgesNotExecuted = (\<lambda>w. w \<noteq> []),
        getNext = (\<lambda>w. (case w of [] \<Rightarrow> [] | e # _ \<Rightarrow> e, w)),
        handler_query = (\<lambda>e u w. ([] :: nat list, [], u, w)),
        storeRecords = (\<lambda>e rs w. w),
        updateEdgeRecords = (\<lambda>e w. w),
        updateAllOtherEdges = (\<lambda>e w. w),
        edge_records = (\<lambda>e w. []),
        markExecuted = (\<lambda>e w. remove1 e w),
        getID = (\<lambda>e. e), isReversed = (\<lambda>e. False),
        subject_id = (\<lambda>e. ''n0''), object_id = (\<lambda>e. ''n1''), qEdge_id = (\<lambda>e. e)\<rparr>
       None (Inr ([''e0'', ''e1''], []) :: unit thrown + (string list \<times> Log list))
       (\<lambda>edges. (True, [])) (\<lambda>edges. edges) (\<lambda>this w. this)
       \<lparr>logs = [], queryGraph = (), knowledgeGraph = newKnowledgeGraph,
        trapiResultsAssembler =
          \<lparr>results_field = [\<lparr>node_bindings = [], edge_bindings = [], score = 1\<rparr>]\<rparr>\<rparr>
       = Some (None, this') \<and>
     response_logs (getResponse this') = ls' \<and>
     level (last ls') = ''WARNING'' \<and>
     message_results (getResponse this') = []"
proof -
  let ?c = "\<lparr>getEdgesNotExecuted = (\<lambda>w :: string list. w \<noteq> []),
        getNext = (\<lambda>w. (case w of [] \<Rightarrow> [] | e # _ \<Rightarrow> e, w)),
        handler_query = (\<lambda>e u w. ([] :: nat list, [], u, w)),
        storeRecords = (\<lambda>e rs w. w),
        updateEdgeRecords = (\<lambda>e w. w),
        updateAllOtherEdges = (\<lambda>e w. w),
        edge_records = (\<lambda>e w. []),
        markExecuted = (\<lambda>e w. remove1 e w),
        getID = (\<lambda>e. e), isReversed = (\<lambda>e. False),
        subject_id = (\<lambda>e. ''n0''), object_id = (\<lambda>e. ''n1''), qEdge_id = (\<lambda>e. e)\<rparr>"
  let ?this = "\<lparr>logs = [], queryGraph = (), knowledgeGraph = newKnowledgeGraph,
        trapiResultsAssembler =
          \<lparr>results_field = [\<lparr>node_bindings = [], edge_bindings = [], score = 1\<rparr>]\<rparr>\<rparr>"
  let ?cal = "Inr ([''e0'', ''e1''], []) :: unit thrown + (string list \<times> Log list)"
  note t = zero_records_ends_query [where c = ?c and calculated = ?cal and missingAPIs = None
      and this = ?this and edges = "[''e0'', ''e1'']" and ?logs3.0 = "[]"
      and supported = "\<lambda>edges. (True, [])" and supportLogs = "[]"
      and initial = "\<lambda>edges. edges" and ls = "[]" and u = "[]" and w = "[''e0'', ''e1'']"
      and e = "''e0''" and ?w1.0 = "[''e0'', ''e1'']" and queryRecords = "[]" and hl = "[]"
      and u' = "[]" and ?w2.0 = "[''e0'', ''e1'']" and ?w3.0 = "[''e0'', ''e1'']"
      and finish = "\<lambda>this w. this" and n = 0]
  have "\<exists>ls' w' m this'.
      query_loop (Suc 0) ?c ([], [], [''e0'', ''e1'']) = Some (Return (ls', [], w')) \<and>
      (w' = [''e0'', ''e1''] \<or> w' = [''e0'', ''e1'']) \<and>
      (\<exists>before. ls' = [] @ before @ [gotNoRecords (getID ?c ''e0'')] \<or>
                 ls' = [] @ before @ [keptNoRecords (getID ?c ''e0'')]) \<and>
      level (last ls') = ''WARNING'' \<and>
      query m ?c None ?cal (\<lambda>edges. (True, [])) (\<lambda>edges. edges) (\<lambda>this w. this) ?this =
        Some (None, this') \<and>
      this' = (warnMissingAPIs None (initializeResponse ?this))\<lparr>logs := ls'\<rparr> \<and>
      response_logs (getResponse this') = ls' \<and>
      message_results (getResponse this') = []"
    by (rule t)
       (simp_all add: processQueryGraph_def warnMissingAPIs_def initializeResponse_def
          reaches_start)
  then show ?thesis by blast
qed


end
